theory Spec2Isabelle
  imports Complex_Main
begin

section \<open>Strings as the pages use them\<close>

text \<open>
  The coding round (\<^verbatim>\<open>src/pages/CodingRound.tsx\<close>) compares program output with
  \<^verbatim>\<open>String.prototype.trim\<close> and feeds standard input line by line. A string is a
  list of code units below 256, read as Latin-1; the white space and line terminators of
  ECMAScript in that range are TAB, LF, VT, FF, CR, SP and NBSP.
\<close>

definition isWhiteSpace :: "char \<Rightarrow> bool" where
  "isWhiteSpace c =
     (c = CHR 0x09 \<or> c = CHR 0x0A \<or> c = CHR 0x0B \<or> c = CHR 0x0C \<or> c = CHR 0x0D
      \<or> c = CHR 0x20 \<or> c = CHR 0xA0)"

definition trim :: "string \<Rightarrow> string" where
  "trim s = rev (dropWhile isWhiteSpace (rev (dropWhile isWhiteSpace s)))"

text \<open>\<^verbatim>\<open>x || ""\<close> and \<^verbatim>\<open>x ?? ""\<close> on a value that is a string or missing.\<close>

definition orEmpty :: "string option \<Rightarrow> string" where
  "orEmpty x = (case x of None \<Rightarrow> [] | Some s \<Rightarrow> s)"

text \<open>\<^verbatim>\<open>s.split("\n")\<close>: the empty string gives one empty line.\<close>

primrec splitNl :: "string \<Rightarrow> string list" where
  "splitNl [] = [[]]"
| "splitNl (c # cs) =
     (if c = CHR 0x0A then [] # splitNl cs
      else (case splitNl cs of [] \<Rightarrow> [[c]] | l # ls \<Rightarrow> (c # l) # ls))"

text \<open>\<^verbatim>\<open>lines.join("\n")\<close>.\<close>

fun joinNl :: "string list \<Rightarrow> string" where
  "joinNl [] = []"
| "joinNl [x] = x"
| "joinNl (x # y # zs) = x @ CHR 0x0A # joinNl (y # zs)"

section \<open>The local runners: \<^verbatim>\<open>runLocal\<close>\<close>

text \<open>
  \<^verbatim>\<open>type RunResult\<close>, without \<^verbatim>\<open>timeSec\<close> and \<^verbatim>\<open>memoryKB\<close> (wall-clock
  measurements that no verdict reads). The status is the union of string literals of the
  source.
\<close>

datatype run_status = Accepted | CompilationError | RuntimeError | Processing | Failed | OK

record RunResult =
  stdout :: string
  stderr :: string
  status :: run_status

text \<open>
  The two interpreters (\<^verbatim>\<open>new Function\<close> for JavaScript, Pyodide for Python) are
  outside the repository: they are parameters of the model. A candidate program may keep
  state between two runs (globals of the page), so each run takes the interpreter's state
  \<open>'w\<close> and returns the next one. A run is taken to end, as the execution contract of
  the specification assumes of candidate code.

  A value thrown by candidate code reaches \<^verbatim>\<open>catch (e: any)\<close>. The handler reads it
  only through \<^verbatim>\<open>`${e?.message || e}`\<close>, so a thrown value is what that expression
  can see of it: an \<^verbatim>\<open>Error\<close> object with its name and message (a
  \<^verbatim>\<open>SyntaxError\<close> of \<^verbatim>\<open>new Function\<close>, a \<^verbatim>\<open>TypeError\<close>, a
  \<^verbatim>\<open>PythonError\<close>), a primitive string, a \<^verbatim>\<open>Symbol\<close>, which has no conversion to
  a string, or any other value, given by its \<^verbatim>\<open>message\<close> and by its own conversion.
  A conversion to a string gives the string or raises (a symbol, an object with no
  \<^verbatim>\<open>toString\<close>, a \<^verbatim>\<open>toString\<close> that throws). \<open>NoMessage\<close> is a value whose
  \<^verbatim>\<open>message\<close> is missing or falsy, as for \<^verbatim>\<open>throw null\<close> and \<^verbatim>\<open>throw 42\<close>;
  \<open>Message c\<close> is a truthy \<^verbatim>\<open>message\<close> whose conversion is \<open>c\<close>, or an accessor
  that raises when read.
\<close>

datatype js_fault = TypeError string | OtherFault string

datatype js_conversion = Converts string | Raises js_fault

datatype js_message = NoMessage | Message js_conversion

datatype js_thrown =
    ErrorObject string string
  | ThrownString string
  | ThrownSymbol string
  | ThrownValue js_message js_conversion

text \<open>
  \<^verbatim>\<open>`${e?.message || e}`\<close>. An \<^verbatim>\<open>Error\<close> with an empty message is falsy there
  and converts to its name; a primitive string has no \<^verbatim>\<open>message\<close>; converting a
  \<^verbatim>\<open>Symbol\<close> raises a \<^verbatim>\<open>TypeError\<close>; of any other value the truthy message
  is converted, and the value itself when there is none.
\<close>

fun messageOrSelf :: "js_thrown \<Rightarrow> js_fault + string" where
  "messageOrSelf (ErrorObject name msg) = Inr (if msg \<noteq> [] then msg else name)"
| "messageOrSelf (ThrownString s) = Inr s"
| "messageOrSelf (ThrownSymbol d) = Inl (TypeError ''Cannot convert a Symbol value to a string'')"
| "messageOrSelf (ThrownValue (Message (Converts m)) self) = Inr m"
| "messageOrSelf (ThrownValue (Message (Raises fault)) self) = Inl fault"
| "messageOrSelf (ThrownValue NoMessage (Converts s)) = Inr s"
| "messageOrSelf (ThrownValue NoMessage (Raises fault)) = Inl fault"

datatype js_outcome = JsReturned "string list" "string list" | JsThrew js_thrown

datatype py_outcome = PyReturned string string | PyThrew js_thrown

record 'w runtime =
  jsExec :: "'w \<Rightarrow> string \<Rightarrow> string list \<Rightarrow> js_outcome \<times> 'w"
  pyodideLoaded :: "'w \<Rightarrow> bool"
  pyExec :: "'w \<Rightarrow> string \<Rightarrow> string \<Rightarrow> py_outcome \<times> 'w"

datatype language = Python | JavaScript

text \<open>
  The body of a \<^verbatim>\<open>catch\<close> block of \<^verbatim>\<open>runLocal\<close>: the result it returns, or the
  fault its template literal raises, which leaves \<^verbatim>\<open>runLocal\<close> as a rejected promise.
\<close>

definition caught :: "js_thrown \<Rightarrow> js_fault + RunResult" where
  "caught e =
     (case messageOrSelf e of
        Inl fault \<Rightarrow> Inl fault
      | Inr m \<Rightarrow> Inr \<lparr>stdout = [], stderr = ''Runtime Error: '' @ m, status = RuntimeError\<rparr>)"

text \<open>
  \<^verbatim>\<open>runLocal(source, languageId, inStdin)\<close>. \<^verbatim>\<open>languageId\<close> has the two values of
  \<^verbatim>\<open>languages\<close>, so the last \<^verbatim>\<open>return\<close> (unsupported language) is not reached.
\<close>

definition runLocal ::
  "'w runtime \<Rightarrow> 'w \<Rightarrow> string \<Rightarrow> language \<Rightarrow> string \<Rightarrow> (js_fault + RunResult) \<times> 'w" where
  "runLocal rt w source languageId inStdin =
     (case languageId of
        JavaScript \<Rightarrow>
          (case jsExec rt w source (splitNl inStdin) of
             (JsReturned outBuff errBuff, w') \<Rightarrow>
               (Inr \<lparr>stdout = joinNl outBuff, stderr = joinNl errBuff, status = OK\<rparr>, w')
           | (JsThrew e, w') \<Rightarrow> (caught e, w'))
      | Python \<Rightarrow>
          if \<not> pyodideLoaded rt w
          then (Inr \<lparr>stdout = [], stderr = ''Python runtime not ready'', status = Failed\<rparr>, w)
          else
            (case pyExec rt w source inStdin of
               (PyReturned out err, w') \<Rightarrow>
                 (Inr \<lparr>stdout = out, stderr = err,
                       status = (if err \<noteq> [] then RuntimeError else OK)\<rparr>, w')
             | (PyThrew e, w') \<Rightarrow> (caught e, w')))"

section \<open>Questions, test cases and verdicts\<close>

record TestCase =
  tcId :: "nat option"
  tcInput :: "string option"
  expectedOutput :: "string option"

record Question =
  qId :: string
  testCases :: "TestCase list option"
  endAt :: "int option"

text \<open>An element of \<^verbatim>\<open>perTestResults\<close>.\<close>

record Verdict =
  vId :: "nat option"
  vInput :: "string option"
  expected :: string
  outputText :: string
  passed :: bool
  vStderr :: "string option"

text \<open>
  The statements both loops share for one test case once \<^verbatim>\<open>runLocal\<close> has returned
  \<open>r\<close>: lines 394-405 of \<^verbatim>\<open>handleRun\<close>, lines 461-473 of \<^verbatim>\<open>submit\<close>.
\<close>

definition verdictOf :: "TestCase \<Rightarrow> RunResult \<Rightarrow> Verdict" where
  "verdictOf tc r =
     (let out = trim (stdout r);
          expd = trim (orEmpty (expectedOutput tc));
          ok = (status r = OK \<and> out = expd)
      in \<lparr>vId = tcId tc, vInput = tcInput tc, expected = expd, outputText = out, passed = ok,
          vStderr = (if stderr r \<noteq> [] then Some (stderr r) else None)\<rparr>)"

text \<open>
  The loop of \<^verbatim>\<open>handleRun\<close> over the test cases, \<open>collected\<close> as its accumulator. A
  rejected \<^verbatim>\<open>runLocal\<close> leaves the loop and \<^verbatim>\<open>handleRun\<close>, which has no handler.
\<close>

fun runLoop ::
  "'w runtime \<Rightarrow> string \<Rightarrow> language \<Rightarrow> TestCase list \<Rightarrow> Verdict list \<Rightarrow> 'w
    \<Rightarrow> (js_fault + Verdict list) \<times> 'w" where
  "runLoop rt code langId [] collected w = (Inr collected, w)"
| "runLoop rt code langId (tc # tcs) collected w =
     (case runLocal rt w code langId (orEmpty (tcInput tc)) of
        (Inl fault, w') \<Rightarrow> (Inl fault, w')
      | (Inr r, w') \<Rightarrow> runLoop rt code langId tcs (collected @ [verdictOf tc r]) w')"

section \<open>Numbers: the percentage of a submission\<close>

text \<open>
  \<^verbatim>\<open>Math.round((passedCount / totalCount) * 100)\<close> is computed on IEEE 754 doubles.
  The counts are integers below \<open>2 ^ 53\<close>, which doubles hold exactly. A positive finite
  double is a pair of a significand below \<open>2 ^ 53\<close> and a binary exponent, of value
  \<open>mant * 2 ^ expo\<close>; the quotients and products met here are far from the subnormal and
  the overflow range, so only the rounding to 53 significant bits (to nearest, ties to
  even) is modelled.
\<close>

function bitLength :: "int \<Rightarrow> nat" where
  "bitLength n = (if n \<le> 0 then 0 else Suc (bitLength (n div 2)))"
  by pat_completeness auto
termination
  by (relation "measure nat") auto

declare bitLength.simps [simp del]

record dbl =
  mant :: int
  expo :: int

definition roundTiesEven :: "int \<Rightarrow> int \<Rightarrow> int" where
  "roundTiesEven n d =
     (let q = n div d; r = n mod d
      in if 2 * r < d then q else if d < 2 * r then q + 1 else if even q then q else q + 1)"

text \<open>
  The double nearest to the positive rational \<open>n / d\<close>: \<open>e\<close> is the exponent with
  \<open>2 ^ e \<le> n / d < 2 ^ (e + 1)\<close>, and the quotient is rounded once scaled into
  \<open>[2 ^ 52, 2 ^ 53)\<close>.
\<close>

definition toDouble :: "int \<Rightarrow> int \<Rightarrow> dbl" where
  "toDouble n d =
     (if n = 0 then \<lparr>mant = 0, expo = 0\<rparr>
      else
        let k = int (bitLength n) - int (bitLength d);
            e = (if (if 0 \<le> k then d * 2 ^ nat k \<le> n else d \<le> n * 2 ^ nat (- k))
                 then k else k - 1);
            s = 52 - e
        in \<lparr>mant = (if 0 \<le> s then roundTiesEven (n * 2 ^ nat s) d
                     else roundTiesEven n (d * 2 ^ nat (- s))),
            expo = - s\<rparr>)"

text \<open>\<^verbatim>\<open>a / b\<close> on two counts, \<open>b\<close> positive.\<close>

definition jsDivide :: "int \<Rightarrow> int \<Rightarrow> dbl" where
  "jsDivide a b = toDouble a b"

text \<open>\<^verbatim>\<open>x * c\<close> for a double and a positive integer constant.\<close>

definition jsTimes :: "dbl \<Rightarrow> int \<Rightarrow> dbl" where
  "jsTimes x c =
     (if 0 \<le> expo x then toDouble (mant x * c * 2 ^ nat (expo x)) 1
      else toDouble (mant x * c) (2 ^ nat (- expo x)))"

text \<open>\<^verbatim>\<open>Math.round\<close>: the nearest integer, a half going up; exact on a double.\<close>

definition mathRound :: "dbl \<Rightarrow> int" where
  "mathRound x =
     (if 0 \<le> expo x then mant x * 2 ^ nat (expo x)
      else (2 * mant x + 2 ^ nat (- expo x)) div 2 ^ (nat (- expo x) + 1))"

text \<open>The real number a double stands for.\<close>

definition dblValue :: "dbl \<Rightarrow> real" where
  "dblValue x = of_int (mant x) * 2 powi expo x"

text \<open>Line 480 of \<^verbatim>\<open>submit\<close>.\<close>

definition percentageOf :: "nat \<Rightarrow> nat \<Rightarrow> int" where
  "percentageOf passedCount totalCount =
     (if totalCount > 0
      then mathRound (jsTimes (jsDivide (int passedCount) (int totalCount)) 100)
      else 0)"

section \<open>The coding round\<close>

text \<open>
  The state of \<^verbatim>\<open>CodingRoundPage\<close> (its \<^verbatim>\<open>useState\<close> cells). The output panels
  (\<^verbatim>\<open>stdin\<close>, \<^verbatim>\<open>stdout\<close>, \<^verbatim>\<open>stderr\<close>, \<^verbatim>\<open>timeUsed\<close>), \<^verbatim>\<open>autoRun\<close> and the
  sounds are presentation only and left out; \<^verbatim>\<open>uid\<close> is the signed-in user, if any.
  \<^verbatim>\<open>pyReady\<close> is set once Pyodide has been loaded.
\<close>

record CodingState =
  questions :: "Question list"
  idx :: nat
  langId :: language
  codeMap :: "string \<rightharpoonup> string"
  statusText :: string
  loading :: bool
  runningNow :: bool
  pyReady :: bool
  acceptedRules :: bool
  started :: bool
  timerSec :: nat
  violations :: nat
  warningMsg :: "string option"
  soundEnabled :: bool
  perTestResults :: "Verdict list"
  submittedQuestions :: "string set"
  roundCompleted :: bool
  showFullscreen :: bool
  remainingSec :: "int option"
  uid :: "string option"

text \<open>\<^verbatim>\<open>const currentQuestion = questions[idx]\<close>: undefined out of range.\<close>

definition currentQuestion :: "CodingState \<Rightarrow> Question option" where
  "currentQuestion st = (if idx st < length (questions st) then Some (questions st ! idx st) else None)"

definition langKey :: "language \<Rightarrow> string" where
  "langKey l = (case l of Python \<Rightarrow> ''python'' | JavaScript \<Rightarrow> ''javascript'')"

definition codeKey :: "CodingState \<Rightarrow> string" where
  "codeKey st = (case currentQuestion st of None \<Rightarrow> [] | Some q \<Rightarrow> qId q @ ''_'' @ langKey (langId st))"

definition code :: "CodingState \<Rightarrow> string" where
  "code st = (if codeKey st \<noteq> [] then orEmpty (codeMap st (codeKey st)) else [])"

definition setCode :: "string \<Rightarrow> CodingState \<Rightarrow> CodingState" where
  "setCode val st = st\<lparr>codeMap := (codeMap st)(codeKey st \<mapsto> val)\<rparr>"

text \<open>
  The document written by \<^verbatim>\<open>submit\<close> (without \<^verbatim>\<open>submittedAt\<close>, a wall-clock date),
  and what lies outside the page: the interpreter's state, the documents
  \<^verbatim>\<open>responses/{uid}/round2/{questionId}\<close>, whether the store accepts a write
  (\<^verbatim>\<open>setDoc\<close> throws otherwise), and the
  \<^verbatim>\<open>setDoc\<close> calls made so far, in order.
\<close>

datatype ResultText = Passed | FailedText

record Submission =
  sCode :: string
  sLanguage :: language
  sResult :: ResultText
  percentage :: int
  passedCnt :: nat
  total :: nat
  problemId :: string
  examViolations :: nat
  durationSec :: nat

record 'w CodingWorld =
  interp :: 'w
  round2 :: "string \<times> string \<rightharpoonup> Submission"
  storeAccepts :: bool
  setDocCalls :: "(string \<times> string \<times> Submission) list"

definition casesOf :: "Question \<Rightarrow> TestCase list" where
  "casesOf q = (case testCases q of None \<Rightarrow> [] | Some tcs \<Rightarrow> tcs)"

text \<open>
  \<^verbatim>\<open>handleRun\<close>. When \<^verbatim>\<open>runLocal\<close> rejects, so does \<^verbatim>\<open>handleRun\<close>: the panels stay
  cleared and \<^verbatim>\<open>runningNow\<close> stays set.
\<close>

definition handleRun ::
  "'w runtime \<Rightarrow> CodingState \<times> 'w CodingWorld \<Rightarrow> CodingState \<times> 'w CodingWorld" where
  "handleRun rt = (\<lambda>(st, wd).
     case currentQuestion st of
       None \<Rightarrow> (st\<lparr>statusText := ''Failed''\<rparr>, wd)
     | Some q \<Rightarrow>
         let st1 = st\<lparr>runningNow := True, statusText := [], perTestResults := []\<rparr> in
         (case runLoop rt (code st) (langId st) (casesOf q) [] (interp wd) of
            (Inl fault, w') \<Rightarrow> (st1, wd\<lparr>interp := w'\<rparr>)
          | (Inr collected, w') \<Rightarrow>
              (st1\<lparr>perTestResults := collected,
                   statusText := (if list_all passed collected then ''OK'' else ''Failed''),
                   runningNow := False\<rparr>,
               wd\<lparr>interp := w'\<rparr>)))"

text \<open>
  The loop of \<^verbatim>\<open>submit\<close> (lines 459-478), with \<open>collected\<close>, \<open>passedCount\<close> and
  \<open>resultText\<close> as accumulators. A rejected \<^verbatim>\<open>runLocal\<close> leaves the loop for the
  \<^verbatim>\<open>catch\<close> of \<^verbatim>\<open>submit\<close>.
\<close>

fun submitLoop ::
  "'w runtime \<Rightarrow> string \<Rightarrow> language \<Rightarrow> TestCase list \<Rightarrow> Verdict list \<times> nat \<times> ResultText \<Rightarrow> 'w
    \<Rightarrow> (js_fault + Verdict list \<times> nat \<times> ResultText) \<times> 'w" where
  "submitLoop rt src lang [] acc w = (Inr acc, w)"
| "submitLoop rt src lang (tc # tcs) (collected, passedCount, resultText) w =
     (case runLocal rt w src lang (orEmpty (tcInput tc)) of
        (Inl fault, w') \<Rightarrow> (Inl fault, w')
      | (Inr r, w') \<Rightarrow>
          let v = verdictOf tc r in
          submitLoop rt src lang tcs
            (collected @ [v],
             (if passed v then passedCount + 1 else passedCount),
             (if status r \<noteq> OK \<or> outputText v \<noteq> expected v then FailedText else resultText))
            w')"

text \<open>
  \<^verbatim>\<open>submit\<close>. A handler reads the state of the render that created it (\<open>c\<close>, its
  closure) and writes through the setters to the current state \<open>st\<close>; for the button
  the two are the same. \<^verbatim>\<open>submit\<close> is taken to run to its end before the next event.
  A write that the store refuses throws: the \<^verbatim>\<open>catch\<close> logs it, and
  \<^verbatim>\<open>finally\<close> clears \<^verbatim>\<open>loading\<close>.
\<close>

definition submit ::
  "'w runtime \<Rightarrow> CodingState \<Rightarrow> CodingState \<times> 'w CodingWorld \<Rightarrow> CodingState \<times> 'w CodingWorld" where
  "submit rt c = (\<lambda>(st, wd).
     case (currentQuestion c, uid c) of
       (None, _) \<Rightarrow> (st, wd)
     | (Some q, None) \<Rightarrow> (st, wd)
     | (Some q, Some u) \<Rightarrow>
         if qId q \<in> submittedQuestions c then (st, wd)
         else
           let totalCount = length (casesOf q) in
           (case submitLoop rt (code c) (langId c) (casesOf q) ([], 0, Passed) (interp wd) of
              (Inl fault, w') \<Rightarrow> (st\<lparr>loading := False\<rparr>, wd\<lparr>interp := w'\<rparr>)
            | (Inr (collected, passedCount, resultText), w') \<Rightarrow>
                let document = \<lparr>sCode = code c, sLanguage = langId c, sResult = resultText,
                                percentage = percentageOf passedCount totalCount,
                                passedCnt = passedCount, total = totalCount,
                                problemId = qId q, examViolations = violations c,
                                durationSec = timerSec c\<rparr>;
                    wd1 = wd\<lparr>interp := w', setDocCalls := setDocCalls wd @ [(u, qId q, document)]\<rparr>
                in if storeAccepts wd
                   then (st\<lparr>perTestResults := collected,
                            submittedQuestions := insert (qId q) (submittedQuestions st),
                            loading := False\<rparr>,
                         wd1\<lparr>round2 := (round2 wd)((u, qId q) \<mapsto> document)\<rparr>)
                   else (st\<lparr>loading := False\<rparr>, wd1)))"

subsection \<open>Loading, the countdown and the monitors\<close>

text \<open>
  Lines 196-205 of \<^verbatim>\<open>loadQuestions\<close>: the end times of the loaded questions that are
  finite numbers (\<open>endAt\<close> is \<open>None\<close> otherwise), in milliseconds, and the seconds left
  until the earliest one. \<open>now\<close> is the time \<^verbatim>\<open>getServerTime\<close> returned. Time stamps
  and their differences are integers that doubles hold exactly, and the quotient by 1000
  is far from the size where the rounding of a double could reach the next integer, so
  \<^verbatim>\<open>Math.floor(x / 1000)\<close> is \<open>x div 1000\<close>.
\<close>

definition ends :: "Question list \<Rightarrow> int list" where
  "ends list = List.map_filter endAt list"

definition baseRemaining :: "Question list \<Rightarrow> int \<Rightarrow> int option" where
  "baseRemaining list now =
     (case ends list of
        [] \<Rightarrow> None
      | e # es \<Rightarrow> Some (max 0 ((fold min es e - now) div 1000)))"

text \<open>
  The rest of \<^verbatim>\<open>loadQuestions\<close> from line 193 on: \<open>list\<close> is the filtered list,
  \<open>initialCode\<close> the map built at lines 207-213 and \<open>submittedIds\<close> the identifiers
  of the documents of \<^verbatim>\<open>responses/{uid}/round2\<close>.
\<close>

definition loadQuestions ::
  "Question list \<Rightarrow> int \<Rightarrow> (string \<rightharpoonup> string) \<Rightarrow> string list \<Rightarrow> CodingState \<Rightarrow> CodingState" where
  "loadQuestions list now initialCode submittedIds st =
     (let st1 = st\<lparr>questions := list, remainingSec := baseRemaining list now,
                   codeMap := initialCode\<rparr>
      in if submittedIds \<noteq> []
         then st1\<lparr>submittedQuestions := set submittedIds,
                 roundCompleted :=
                   (if card (set submittedIds) = length list then True else roundCompleted st)\<rparr>
         else st1)"

text \<open>
  The page with what React keeps beside the state: the render whose closure the
  countdown effect (lines 511-537) holds, whether that effect's interval is set, and
  \<^verbatim>\<open>warnShownRef\<close>. The effect runs again, clearing its interval and closing over the
  new render, when one of its dependencies
  \<^verbatim>\<open>[remainingSec, roundCompleted, currentQuestion, submittedQuestions, soundEnabled]\<close>
  has changed. The set of submitted questions is compared by its elements: it is only
  ever replaced by a larger one.
\<close>

record 'w CodingPage =
  cur :: CodingState
  effRender :: CodingState
  intervalOn :: bool
  warnShown :: bool
  world :: "'w CodingWorld"

definition countdownDeps ::
  "CodingState \<Rightarrow> int option \<times> bool \<times> Question option \<times> string set \<times> bool" where
  "countdownDeps st =
     (remainingSec st, roundCompleted st, currentQuestion st, submittedQuestions st,
      soundEnabled st)"

definition syncCountdown :: "'w CodingPage \<Rightarrow> 'w CodingPage" where
  "syncCountdown pg =
     (if countdownDeps (cur pg) \<noteq> countdownDeps (effRender pg)
      then pg\<lparr>effRender := cur pg,
              intervalOn := (\<not> roundCompleted (cur pg) \<and> remainingSec (cur pg) \<noteq> None)\<rparr>
      else pg)"

text \<open>
  One firing of the interval: the updater passed to \<^verbatim>\<open>setRemainingSec\<close> gets the
  current value \<open>s\<close>; \<^verbatim>\<open>currentQuestion\<close>, \<^verbatim>\<open>submittedQuestions\<close> and
  \<^verbatim>\<open>submit\<close> are those of the effect's closure.
\<close>

definition tick :: "'w runtime \<Rightarrow> 'w CodingPage \<Rightarrow> 'w CodingPage" where
  "tick rt pg =
     (if \<not> intervalOn pg then pg
      else
        case remainingSec (cur pg) of
          None \<Rightarrow> pg
        | Some s \<Rightarrow>
            let next = s - 1;
                pg1 = (if next = 60 \<and> \<not> warnShown pg then pg\<lparr>warnShown := True\<rparr> else pg)
            in if next \<le> 0
               then
                 let c = effRender pg;
                     (st', wd') =
                       (case currentQuestion c of
                          None \<Rightarrow> (cur pg, world pg)
                        | Some q \<Rightarrow>
                            if qId q \<notin> submittedQuestions c
                            then submit rt c (cur pg, world pg)
                            else (cur pg, world pg))
                 in syncCountdown
                      (pg1\<lparr>intervalOn := False, cur := st'\<lparr>remainingSec := Some 0\<rparr>,
                           world := wd'\<rparr>)
               else syncCountdown (pg1\<lparr>cur := (cur pg)\<lparr>remainingSec := Some next\<rparr>\<rparr>))"

text \<open>The monitor of lines 577-615, attached while \<^verbatim>\<open>started\<close>.\<close>

definition bumpViolation :: "string \<Rightarrow> CodingState \<Rightarrow> CodingState" where
  "bumpViolation reason st = st\<lparr>violations := violations st + 1, warningMsg := Some reason\<rparr>"

definition onVisibility :: "bool \<Rightarrow> CodingState \<Rightarrow> CodingState" where
  "onVisibility documentHidden st =
     (if documentHidden then bumpViolation ''Tab switch detected'' st else st)"

definition onBlur :: "CodingState \<Rightarrow> CodingState" where
  "onBlur st = bumpViolation ''Window lost focus'' st"

definition onFsChange :: "bool \<Rightarrow> CodingState \<Rightarrow> CodingState" where
  "onFsChange inFullscreen st =
     (if \<not> inFullscreen
      then (bumpViolation ''Exited full-screen mode'' st)\<lparr>showFullscreen := False\<rparr>
      else st\<lparr>showFullscreen := True\<rparr>)"

text \<open>
  The screens are gated in this order: no question, rules not accepted, not started,
  round completed; the editor, its buttons and the navigation exist on the last screen
  only, where the list of questions is not empty.
\<close>

definition mainScreen :: "CodingState \<Rightarrow> bool" where
  "mainScreen st = (questions st \<noteq> [] \<and> acceptedRules st \<and> started st \<and> \<not> roundCompleted st)"

definition submitDisabled :: "CodingState \<Rightarrow> bool" where
  "submitDisabled st =
     (loading st \<or> (case currentQuestion st of None \<Rightarrow> False
                     | Some q \<Rightarrow> qId q \<in> submittedQuestions st))"

text \<open>
  The \<^verbatim>\<open>disabled\<close> attribute of the Run button (line 1056):
  \<^verbatim>\<open>runningNow || (langId === "python" && !pyReady)\<close>.
\<close>

definition runDisabled :: "CodingState \<Rightarrow> bool" where
  "runDisabled st = (runningNow st \<or> (langId st = Python \<and> \<not> pyReady st))"

text \<open>
  What can happen to the page: the countdown's interval and the elapsed-time interval
  fire, the candidate clicks or types, the browser reports a change (with the value of
  \<^verbatim>\<open>document.hidden\<close> or of \<^verbatim>\<open>document.fullscreenElement\<close> at that time), the store
  starts or stops accepting writes. After each, React renders and the effects follow.
  The choice of the language and the loading of Pyodide are not among the events:
  \<open>langId\<close> and \<open>pyReady\<close> are as the state has them.
\<close>

datatype CodingEvent =
    Tick
  | ElapsedTick
  | ClickSubmit
  | ClickRun
  | EditCode string
  | Previous
  | Next
  | VisibilityChange bool
  | WindowBlur
  | FullscreenChange bool
  | StoreAccepts bool

definition codingStep :: "'w runtime \<Rightarrow> CodingEvent \<Rightarrow> 'w CodingPage \<Rightarrow> 'w CodingPage" where
  "codingStep rt ev pg =
     (case ev of
        Tick \<Rightarrow> tick rt pg
      | ElapsedTick \<Rightarrow>
          (if started (cur pg) then pg\<lparr>cur := (cur pg)\<lparr>timerSec := timerSec (cur pg) + 1\<rparr>\<rparr>
           else pg)
      | ClickSubmit \<Rightarrow>
          (if mainScreen (cur pg) \<and> \<not> submitDisabled (cur pg)
           then (case submit rt (cur pg) (cur pg, world pg) of
                   (st', wd') \<Rightarrow> syncCountdown (pg\<lparr>cur := st', world := wd'\<rparr>))
           else pg)
      | ClickRun \<Rightarrow>
          (if mainScreen (cur pg) \<and> \<not> runDisabled (cur pg)
           then (case handleRun rt (cur pg, world pg) of
                   (st', wd') \<Rightarrow> pg\<lparr>cur := st', world := wd'\<rparr>)
           else pg)
      | EditCode val \<Rightarrow> (if mainScreen (cur pg) then pg\<lparr>cur := setCode val (cur pg)\<rparr> else pg)
      | Previous \<Rightarrow>
          (if mainScreen (cur pg) \<and> idx (cur pg) \<noteq> 0
           then syncCountdown (pg\<lparr>cur := (cur pg)\<lparr>idx := idx (cur pg) - 1\<rparr>\<rparr>)
           else pg)
      | Next \<Rightarrow>
          (if mainScreen (cur pg) \<and> idx (cur pg) \<noteq> length (questions (cur pg)) - 1
           then syncCountdown
                  (pg\<lparr>cur := (cur pg)\<lparr>idx := min (length (questions (cur pg)) - 1)
                                                 (idx (cur pg) + 1)\<rparr>\<rparr>)
           else pg)
      | VisibilityChange documentHidden \<Rightarrow>
          (if started (cur pg) then pg\<lparr>cur := onVisibility documentHidden (cur pg)\<rparr> else pg)
      | WindowBlur \<Rightarrow> (if started (cur pg) then pg\<lparr>cur := onBlur (cur pg)\<rparr> else pg)
      | FullscreenChange inFullscreen \<Rightarrow>
          (if started (cur pg) then pg\<lparr>cur := onFsChange inFullscreen (cur pg)\<rparr> else pg)
      | StoreAccepts b \<Rightarrow> pg\<lparr>world := (world pg)\<lparr>storeAccepts := b\<rparr>\<rparr>)"

text \<open>A sequence of events, oldest first.\<close>

definition codingRun :: "'w runtime \<Rightarrow> CodingEvent list \<Rightarrow> 'w CodingPage \<Rightarrow> 'w CodingPage" where
  "codingRun rt evs pg = fold (codingStep rt) evs pg"

section \<open>The MCQ round\<close>

text \<open>
  \<^verbatim>\<open>src/pages/MCQRound.tsx\<close> holds the page twice; the handlers modelled here are the
  same in both copies, but for the navigation after a submission, which only the first
  copy has (two seconds later; it is taken at once here). The handlers that suppress the
  refresh keys and the context menu change nothing and are left out, as are the sounds.
  \<open>answer\<close> is the stored correct answer when it is a string. The questions come
  from the store as they are; the form that creates a question (\<^verbatim>\<open>handleAdd\<close> in
  \<^verbatim>\<open>src/store/authStore.ts\<close>) refuses an empty answer, the page does not check it.
  \<^verbatim>\<open>answers\<close> is an object: its keys with their values, in the order the keys were
  first set. \<open>mqOptions\<close> are the options shown for a question, none when the field
  is missing.
\<close>

record McqQuestion =
  mqId :: string
  mqTitle :: string
  mqOptions :: "string list"
  answer :: "string option"

record McqState =
  mQuestions :: "McqQuestion list"
  answers :: "(string \<times> string) list"
  currentQuestionIndex :: nat
  mAcceptedRules :: bool
  mStarted :: bool
  submitted :: bool
  warningGiven :: bool
  mTimerSec :: nat
  mViolations :: nat
  mWarningMsg :: "string option"
  mSoundEnabled :: bool
  mShowFullscreen :: bool
  mLoading :: bool
  user :: "string option"

record AnswerDetail =
  adQuestion :: string
  adSelected :: string
  adCorrect :: "string option"
  isCorrect :: bool

record Round1 =
  score :: nat
  correct :: nat
  wrong :: nat
  r1Answers :: "string \<rightharpoonup> AnswerDetail"
  examDuration :: nat
  r1Violations :: nat

text \<open>
  The document \<^verbatim>\<open>responses/{uid}\<close>, each field present or not (the dates left out),
  and what lies outside the page: the documents, whether the store accepts a write,
  \<^verbatim>\<open>document.fullscreenElement\<close>, whether the browser grants a full-screen request,
  the requests made so far, and the route last navigated to.
\<close>

record ResponseDoc =
  round1 :: "Round1 option"
  round1Submitted :: "bool option"
  round1Rejected :: "bool option"
  docViolations :: "nat option"

record McqWorld =
  responses :: "string \<rightharpoonup> ResponseDoc"
  mStoreAccepts :: bool
  fullscreenElement :: bool
  fullscreenGranted :: bool
  fullscreenRequests :: nat
  route :: string

definition emptyDoc :: ResponseDoc where
  "emptyDoc = \<lparr>round1 = None, round1Submitted = None, round1Rejected = None, docViolations = None\<rparr>"

definition docOf :: "McqWorld \<Rightarrow> string \<Rightarrow> ResponseDoc" where
  "docOf wd u = (case responses wd u of None \<Rightarrow> emptyDoc | Some d \<Rightarrow> d)"

text \<open>
  \<^verbatim>\<open>reEnterFullscreen\<close> asks for full screen only when the document is not in full
  screen, and swallows a refusal; \<^verbatim>\<open>exitFullscreen\<close> leaves full screen when the
  document is in it.
\<close>

definition reEnterFullscreen :: "McqState \<times> McqWorld \<Rightarrow> McqState \<times> McqWorld" where
  "reEnterFullscreen = (\<lambda>(st, wd).
     if \<not> fullscreenElement wd
     then
       (if fullscreenGranted wd
        then (st\<lparr>mShowFullscreen := True\<rparr>,
              wd\<lparr>fullscreenRequests := fullscreenRequests wd + 1, fullscreenElement := True\<rparr>)
        else (st, wd\<lparr>fullscreenRequests := fullscreenRequests wd + 1\<rparr>))
     else (st, wd))"

definition exitFullscreen :: "McqState \<times> McqWorld \<Rightarrow> McqState \<times> McqWorld" where
  "exitFullscreen = (\<lambda>(st, wd).
     if fullscreenElement wd
     then (st\<lparr>mShowFullscreen := False\<rparr>, wd\<lparr>fullscreenElement := False\<rparr>)
     else (st, wd))"

text \<open>
  \<^verbatim>\<open>handleReject\<close> (lines 260-277), with the \<^verbatim>\<open>user\<close> and the \<^verbatim>\<open>violations\<close> of
  the render \<open>c\<close> that created it. A write that the store refuses rejects the
  promise, and the statements after it are not run.
\<close>

definition handleReject :: "McqState \<Rightarrow> McqState \<times> McqWorld \<Rightarrow> McqState \<times> McqWorld" where
  "handleReject c = (\<lambda>(st, wd).
     case user c of
       None \<Rightarrow> (st, wd)
     | Some u \<Rightarrow>
         let st1 = st\<lparr>submitted := True\<rparr> in
         if \<not> mStoreAccepts wd then (st1, wd)
         else
           (case exitFullscreen
                   (st1, wd\<lparr>responses := (responses wd)(u \<mapsto>
                              (docOf wd u)\<lparr>round1Submitted := Some True, round1Rejected := Some True,
                                           docViolations := Some (mViolations c)\<rparr>)\<rparr>) of
              (st2, wd2) \<Rightarrow> (st2, wd2\<lparr>route := ''/rejected''\<rparr>)))"

text \<open>The two messages of \<^verbatim>\<open>handleViolation\<close>.\<close>

definition firstWarning :: string where
  "firstWarning =
     ''Warning: Do not exit fullscreen or switch tabs. Next violation will reject your exam.''"

definition rejectedMessage :: string where
  "rejectedMessage = ''Exam rejected due to repeated violations.''"

text \<open>
  \<^verbatim>\<open>handleViolation\<close> (lines 98-115): \<^verbatim>\<open>started\<close>, \<^verbatim>\<open>submitted\<close>,
  \<^verbatim>\<open>warningGiven\<close> and \<^verbatim>\<open>handleReject\<close> are those of the closure \<open>c\<close>;
  \<^verbatim>\<open>setViolations(v => v + 1)\<close> updates the current value.
\<close>

definition handleViolation :: "McqState \<Rightarrow> McqState \<times> McqWorld \<Rightarrow> McqState \<times> McqWorld" where
  "handleViolation c = (\<lambda>(st, wd).
     if \<not> mStarted c \<or> submitted c then (st, wd)
     else
       let st1 = st\<lparr>mViolations := mViolations st + 1\<rparr> in
       if \<not> warningGiven c
       then reEnterFullscreen
              (st1\<lparr>mWarningMsg := Some firstWarning, warningGiven := True\<rparr>, wd)
       else handleReject c (st1\<lparr>mWarningMsg := Some rejectedMessage\<rparr>, wd))"

definition handleVisibility :: "bool \<Rightarrow> McqState \<Rightarrow> McqState \<times> McqWorld \<Rightarrow> McqState \<times> McqWorld" where
  "handleVisibility documentHidden c =
     (if documentHidden then handleViolation c else (\<lambda>x. x))"

definition handleFullscreenExit :: "McqState \<Rightarrow> McqState \<times> McqWorld \<Rightarrow> McqState \<times> McqWorld" where
  "handleFullscreenExit c = (\<lambda>(st, wd).
     if \<not> fullscreenElement wd
     then handleViolation c (st\<lparr>mShowFullscreen := False\<rparr>, wd)
     else (st\<lparr>mShowFullscreen := True\<rparr>, wd))"

definition handleESCKey :: "string \<Rightarrow> McqState \<Rightarrow> McqState \<times> McqWorld \<Rightarrow> McqState \<times> McqWorld" where
  "handleESCKey key c = (if key = ''Escape'' then handleViolation c else (\<lambda>x. x))"

definition handleStart :: "McqState \<times> McqWorld \<Rightarrow> McqState \<times> McqWorld" where
  "handleStart = (\<lambda>(st, wd). reEnterFullscreen (st\<lparr>mStarted := True\<rparr>, wd))"

text \<open>\<^verbatim>\<open>{ ...prev, [qid]: opt }\<close>: a key already there keeps its place.\<close>

fun withKey :: "string \<Rightarrow> string \<Rightarrow> (string \<times> string) list \<Rightarrow> (string \<times> string) list" where
  "withKey qid opt [] = [(qid, opt)]"
| "withKey qid opt ((k, v) # rest) =
     (if k = qid then (k, opt) # rest else (k, v) # withKey qid opt rest)"

definition handleSelect :: "string \<Rightarrow> string \<Rightarrow> McqState \<Rightarrow> McqState" where
  "handleSelect qid opt st =
     (if submitted st then st else st\<lparr>answers := withKey qid opt (answers st)\<rparr>)"

text \<open>
  The loop of \<^verbatim>\<open>handleSubmit\<close> (lines 205-218), with \<open>correctCount\<close>,
  \<open>wrongCount\<close> and \<open>answerDetails\<close> as accumulators. \<^verbatim>\<open>===\<close> holds only between
  two equal strings. \<open>ans\<close> is the lookup \<^verbatim>\<open>answers[q.id]\<close>.
\<close>

fun scoreLoop ::
  "(string \<rightharpoonup> string) \<Rightarrow> McqQuestion list \<Rightarrow> nat \<times> nat \<times> (string \<rightharpoonup> AnswerDetail)
    \<Rightarrow> nat \<times> nat \<times> (string \<rightharpoonup> AnswerDetail)" where
  "scoreLoop ans [] acc = acc"
| "scoreLoop ans (q # qs) (correctCount, wrongCount, answerDetails) =
     (let selectedAnswer = orEmpty (ans (mqId q));
          isCorrect = (Some selectedAnswer = answer q)
      in scoreLoop ans qs
           ((if isCorrect then correctCount + 1 else correctCount),
            (if isCorrect then wrongCount else wrongCount + 1),
            answerDetails(mqId q \<mapsto> \<lparr>adQuestion = mqTitle q, adSelected = selectedAnswer,
                                       adCorrect = answer q, isCorrect = isCorrect\<rparr>)))"

text \<open>\<^verbatim>\<open>handleSubmit\<close> (lines 196-258), called from the button of the current render.\<close>

definition handleSubmit :: "McqState \<times> McqWorld \<Rightarrow> McqState \<times> McqWorld" where
  "handleSubmit = (\<lambda>(st, wd).
     case user st of
       None \<Rightarrow> (st, wd)
     | Some u \<Rightarrow>
         if mLoading st then (st, wd)
         else
           (case scoreLoop (map_of (answers st)) (mQuestions st) (0, 0, Map.empty) of
              (correctCount, wrongCount, answerDetails) \<Rightarrow>
                let totalScore = correctCount in
                if \<not> mStoreAccepts wd
                then (st\<lparr>mWarningMsg := Some ''Submission failed. Please try again.'',
                         mLoading := False\<rparr>, wd)
                else
                  (case exitFullscreen
                          (st\<lparr>submitted := True\<rparr>,
                           wd\<lparr>responses := (responses wd)(u \<mapsto>
                                (docOf wd u)\<lparr>round1 := Some \<lparr>score = totalScore, correct = correctCount,
                                                wrong = wrongCount, r1Answers = answerDetails,
                                                examDuration = mTimerSec st,
                                                r1Violations = mViolations st\<rparr>,
                                             round1Submitted := Some True\<rparr>)\<rparr>) of
                     (st2, wd2) \<Rightarrow> (st2\<lparr>mLoading := False\<rparr>, wd2\<lparr>route := ''/thank-you''\<rparr>))))"

text \<open>
  The page with the render whose closure the monitoring effect (lines 97-161) holds; the
  effect runs again when one of \<^verbatim>\<open>[started, submitted, warningGiven, soundEnabled]\<close>
  has changed, and its listeners are attached when that render had
  \<^verbatim>\<open>started && !submitted\<close>.
\<close>

record McqPage =
  mCur :: McqState
  mEff :: McqState
  mWorld :: McqWorld

definition mcqDeps :: "McqState \<Rightarrow> bool \<times> bool \<times> bool \<times> bool" where
  "mcqDeps st = (mStarted st, submitted st, warningGiven st, mSoundEnabled st)"

definition mcqSync :: "McqPage \<Rightarrow> McqPage" where
  "mcqSync pg = (if mcqDeps (mCur pg) \<noteq> mcqDeps (mEff pg) then pg\<lparr>mEff := mCur pg\<rparr> else pg)"

definition listening :: "McqPage \<Rightarrow> bool" where
  "listening pg = (mStarted (mEff pg) \<and> \<not> submitted (mEff pg))"

definition onStartScreen :: "McqState \<Rightarrow> bool" where
  "onStartScreen st =
     (user st \<noteq> None \<and> \<not> submitted st \<and> mQuestions st \<noteq> [] \<and> mAcceptedRules st \<and> \<not> mStarted st)"

definition onQuestionScreen :: "McqState \<Rightarrow> bool" where
  "onQuestionScreen st =
     (user st \<noteq> None \<and> \<not> submitted st \<and> mQuestions st \<noteq> [] \<and> mAcceptedRules st \<and> mStarted st)"

text \<open>
  \<^verbatim>\<open>answeredCount\<close> (line 286) and the \<^verbatim>\<open>disabled\<close> attribute of the Submit button
  (line 692): \<^verbatim>\<open>loading || answeredCount === 0\<close>.
\<close>

definition answeredCount :: "McqState \<Rightarrow> nat" where
  "answeredCount st = length (answers st)"

definition submitExamDisabled :: "McqState \<Rightarrow> bool" where
  "submitExamDisabled st = (mLoading st \<or> answeredCount st = 0)"

text \<open>\<^verbatim>\<open>const currentQuestion = questions[currentQuestionIndex]\<close>.\<close>

definition currentMcq :: "McqState \<Rightarrow> McqQuestion option" where
  "currentMcq st =
     (if currentQuestionIndex st < length (mQuestions st)
      then Some (mQuestions st ! currentQuestionIndex st) else None)"

text \<open>
  What can happen to the page: the browser reports a change, the candidate starts,
  clicks an option of the question displayed, moves to the previous, the next or the
  \<open>i\<close>-th question, clicks Submit (the button stands in the place of Next on the
  last question), a second passes, the store starts or stops accepting writes.
\<close>

datatype McqEvent =
    TabVisibility bool
  | FullscreenChanged bool
  | KeyDown string
  | ClickStartExam
  | SelectOption string
  | PreviousQuestion
  | NextQuestion
  | GoToQuestion nat
  | ClickSubmitExam
  | SecondElapsed
  | StoreAcceptsNow bool

definition withHandler ::
  "(McqState \<times> McqWorld \<Rightarrow> McqState \<times> McqWorld) \<Rightarrow> McqPage \<Rightarrow> McqPage" where
  "withHandler h pg = (case h (mCur pg, mWorld pg) of (st', wd') \<Rightarrow> pg\<lparr>mCur := st', mWorld := wd'\<rparr>)"

definition mcqStep :: "McqEvent \<Rightarrow> McqPage \<Rightarrow> McqPage" where
  "mcqStep ev pg =
     mcqSync
       (case ev of
          TabVisibility documentHidden \<Rightarrow>
            (if listening pg then withHandler (handleVisibility documentHidden (mEff pg)) pg else pg)
        | FullscreenChanged inFullscreen \<Rightarrow>
            (let pg1 = pg\<lparr>mWorld := (mWorld pg)\<lparr>fullscreenElement := inFullscreen\<rparr>\<rparr>
             in if listening pg then withHandler (handleFullscreenExit (mEff pg)) pg1 else pg1)
        | KeyDown key \<Rightarrow>
            (if listening pg then withHandler (handleESCKey key (mEff pg)) pg else pg)
        | ClickStartExam \<Rightarrow>
            (if onStartScreen (mCur pg) then withHandler handleStart pg else pg)
        | SelectOption opt \<Rightarrow>
            (case currentMcq (mCur pg) of
               None \<Rightarrow> pg
             | Some q \<Rightarrow>
                 if onQuestionScreen (mCur pg) \<and> opt \<in> set (mqOptions q)
                 then pg\<lparr>mCur := handleSelect (mqId q) opt (mCur pg)\<rparr> else pg)
        | PreviousQuestion \<Rightarrow>
            (if onQuestionScreen (mCur pg) \<and> currentQuestionIndex (mCur pg) \<noteq> 0
             then pg\<lparr>mCur := (mCur pg)\<lparr>currentQuestionIndex := currentQuestionIndex (mCur pg) - 1\<rparr>\<rparr>
             else pg)
        | NextQuestion \<Rightarrow>
            (if onQuestionScreen (mCur pg)
                \<and> currentQuestionIndex (mCur pg) \<noteq> length (mQuestions (mCur pg)) - 1
             then pg\<lparr>mCur := (mCur pg)\<lparr>currentQuestionIndex :=
                        min (length (mQuestions (mCur pg)) - 1) (currentQuestionIndex (mCur pg) + 1)\<rparr>\<rparr>
             else pg)
        | GoToQuestion i \<Rightarrow>
            (if onQuestionScreen (mCur pg) \<and> i < length (mQuestions (mCur pg))
             then pg\<lparr>mCur := (mCur pg)\<lparr>currentQuestionIndex := i\<rparr>\<rparr>
             else pg)
        | ClickSubmitExam \<Rightarrow>
            (if onQuestionScreen (mCur pg)
                \<and> \<not> currentQuestionIndex (mCur pg) < length (mQuestions (mCur pg)) - 1
                \<and> \<not> submitExamDisabled (mCur pg)
             then withHandler handleSubmit pg else pg)
        | SecondElapsed \<Rightarrow>
            (if mStarted (mCur pg) \<and> \<not> submitted (mCur pg)
             then pg\<lparr>mCur := (mCur pg)\<lparr>mTimerSec := mTimerSec (mCur pg) + 1\<rparr>\<rparr>
             else pg)
        | StoreAcceptsNow b \<Rightarrow> pg\<lparr>mWorld := (mWorld pg)\<lparr>mStoreAccepts := b\<rparr>\<rparr>)"

definition mcqRun :: "McqEvent list \<Rightarrow> McqPage \<Rightarrow> McqPage" where
  "mcqRun evs pg = fold mcqStep evs pg"

section \<open>The layout's monitor\<close>

text \<open>
  The proctoring effect of \<^verbatim>\<open>Layout\<close> (\<^verbatim>\<open>src/unnamed/part_003\<close>, lines 84-176), for a
  signed-in user of role \<^verbatim>\<open>user\<close>: its own violation count, the time of the last
  visibility change it accepted, and the lock-out written at the fifth violation.
  \<open>now\<close> is \<^verbatim>\<open>Date.now()\<close> in milliseconds.
\<close>

record LayoutState =
  violationCount :: nat
  lastVisibilityChange :: int
  fullScreenRequested :: bool
  lockoutUntil :: "int option"
  signedOut :: bool

definition layoutViolation :: "int \<Rightarrow> LayoutState \<Rightarrow> LayoutState" where
  "layoutViolation now st =
     (let st1 = st\<lparr>violationCount := violationCount st + 1\<rparr>
      in if violationCount st1 \<ge> 5
         then st1\<lparr>lockoutUntil := Some (now + 10 * 60 * 1000), signedOut := True\<rparr>
         else st1)"

definition onVisibilityChange :: "int \<Rightarrow> bool \<Rightarrow> LayoutState \<Rightarrow> LayoutState" where
  "onVisibilityChange now documentHidden st =
     (if now - lastVisibilityChange st < 500 then st
      else
        let st1 = st\<lparr>lastVisibilityChange := now\<rparr>
        in if documentHidden then layoutViolation now st1 else st1)"

definition layoutOnBlur :: "int \<Rightarrow> LayoutState \<Rightarrow> LayoutState" where
  "layoutOnBlur now st = layoutViolation now st"

definition layoutOnFullscreenChange :: "int \<Rightarrow> bool \<Rightarrow> LayoutState \<Rightarrow> LayoutState" where
  "layoutOnFullscreenChange now inFullscreen st =
     (if \<not> inFullscreen \<and> fullScreenRequested st then layoutViolation now st else st)"

section \<open>Predicates used in the statements\<close>

text \<open>
  \<open>v\<close> is the verdict of the test case \<open>tc\<close> on a run of \<^verbatim>\<open>runLocal\<close> that
  returned, for the program \<open>src\<close> in the language \<open>lang\<close> on the input of that case,
  from some state of the interpreter.
\<close>

definition verdictFor :: "'w runtime \<Rightarrow> string \<Rightarrow> language \<Rightarrow> TestCase \<Rightarrow> Verdict \<Rightarrow> bool" where
  "verdictFor rt src lang tc v =
     (\<exists>r wa wb. runLocal rt wa src lang (orEmpty (tcInput tc)) = (Inr r, wb) \<and> v = verdictOf tc r)"



text \<open>
  \<open>100 * p / t\<close> lies exactly halfway between two integers: \<open>200 * p\<close> is an odd
  multiple of \<open>t\<close>.
\<close>

definition exactHalf :: "nat \<Rightarrow> nat \<Rightarrow> bool" where
  "exactHalf p t = ((200 * p) mod (2 * t) = t)"

text \<open>The countdown is not negative.\<close>

definition notNegative :: "'w CodingPage \<Rightarrow> bool" where
  "notNegative pg = (case remainingSec (cur pg) of None \<Rightarrow> True | Some s \<Rightarrow> 0 \<le> s)"

section \<open>Sample sessions\<close>

text \<open>
  A stand-in for the JavaScript interpreter on three candidate programs, counting its
  runs: \<^verbatim>\<open>print(input())\<close> prints the first line of its input;
  \<^verbatim>\<open>throw Symbol()\<close> throws a symbol; \<^verbatim>\<open>x\<close> reads an undeclared variable, which
  raises a \<^verbatim>\<open>ReferenceError\<close>. Any other program prints nothing. Pyodide is not
  loaded.
\<close>

definition sampleJs :: "nat \<Rightarrow> string \<Rightarrow> string list \<Rightarrow> js_outcome \<times> nat" where
  "sampleJs n source lines =
     (if source = ''print(input())''
        then JsReturned [case lines of [] \<Rightarrow> [] | l # ls \<Rightarrow> l] []
      else if source = ''throw Symbol()'' then JsThrew (ThrownSymbol [])
      else if source = ''x'' then JsThrew (ErrorObject ''ReferenceError'' ''x is not defined'')
      else JsReturned [] [],
      Suc n)"

definition sampleRuntime :: "nat runtime" where
  "sampleRuntime =
     \<lparr>jsExec = sampleJs, pyodideLoaded = (\<lambda>n. False),
      pyExec = (\<lambda>n source inStdin. (PyReturned [] [], Suc n))\<rparr>"

definition sampleCase :: "nat \<Rightarrow> string \<Rightarrow> string \<Rightarrow> TestCase" where
  "sampleCase i inp out = \<lparr>tcId = Some i, tcInput = Some inp, expectedOutput = Some out\<rparr>"

text \<open>
  Two questions ending at 10 000 ms and 20 000 ms. On the first, the program that prints
  its input passes the cases 1 and 3 and fails the case 2.
\<close>

definition questionOne :: Question where
  "questionOne =
     \<lparr>qId = ''q1'',
      testCases = Some [sampleCase 1 ''1'' ''1'', sampleCase 2 ''2'' ''3'', sampleCase 3 ''4'' ''4''],
      endAt = Some 10000\<rparr>"

definition questionTwo :: Question where
  "questionTwo = \<lparr>qId = ''q2'', testCases = Some [sampleCase 1 ''7'' ''7''], endAt = Some 20000\<rparr>"

text \<open>
  A question with 40 test cases; the program that prints its input passes the first 23
  of them.
\<close>

definition questionForty :: Question where
  "questionForty =
     \<lparr>qId = ''q40'',
      testCases = Some (map (\<lambda>i. sampleCase i ''1'' (if i < 23 then ''1'' else ''0'')) [0..<40]),
      endAt = Some 10000\<rparr>"

text \<open>The state of the page when it mounts, for the signed-in user \<^verbatim>\<open>u1\<close>.\<close>

definition codingInitial :: CodingState where
  "codingInitial =
     \<lparr>questions = [], idx = 0, langId = Python, codeMap = Map.empty, statusText = [],
      loading = False, runningNow = False, pyReady = False, acceptedRules = False,
      started = False,
      timerSec = 0, violations = 0, warningMsg = None, soundEnabled = True,
      perTestResults = [], submittedQuestions = {}, roundCompleted = False,
      showFullscreen = False, remainingSec = None, uid = Some ''u1''\<rparr>"

text \<open>
  A candidate who has accepted the rules and started, works in JavaScript, and has typed
  \<open>src\<close> for the first question and \<^verbatim>\<open>print(input())\<close> for the second; the
  questions were loaded at server time \<open>now\<close> with the documents \<open>done\<close> already
  submitted.
\<close>

definition codingStarted :: "string \<Rightarrow> int \<Rightarrow> string list \<Rightarrow> CodingState" where
  "codingStarted src now done =
     (loadQuestions [questionOne, questionTwo] now
        [''q1_javascript'' \<mapsto> src, ''q2_javascript'' \<mapsto> ''print(input())''] done codingInitial)
       \<lparr>langId := JavaScript, acceptedRules := True, started := True\<rparr>"

text \<open>The same candidate, with the question of 40 test cases alone.\<close>

definition fortyStarted :: CodingState where
  "fortyStarted =
     (loadQuestions [questionForty] 9000 [''q40_javascript'' \<mapsto> ''print(input())''] []
        codingInitial)
       \<lparr>langId := JavaScript, acceptedRules := True, started := True\<rparr>"

definition sampleWorld :: "nat CodingWorld" where
  "sampleWorld = \<lparr>interp = 0, round2 = Map.empty, storeAccepts = True, setDocCalls = []\<rparr>"

text \<open>The page once React has rendered that state and run the effects.\<close>

definition codingPage :: "CodingState \<Rightarrow> nat CodingWorld \<Rightarrow> nat CodingPage" where
  "codingPage st wd =
     syncCountdown \<lparr>cur = st, effRender = codingInitial, intervalOn = False, warnShown = False,
                    world = wd\<rparr>"

text \<open>The MCQ page when it mounts, with two questions, and its surroundings.\<close>

definition mcqInitial :: McqState where
  "mcqInitial =
     \<lparr>mQuestions = [\<lparr>mqId = ''m1'', mqTitle = ''First'', mqOptions = [''A'', ''B''],
                      answer = Some ''A''\<rparr>,
                     \<lparr>mqId = ''m2'', mqTitle = ''Second'', mqOptions = [''A'', ''B''],
                      answer = Some ''B''\<rparr>],
      answers = [], currentQuestionIndex = 0, mAcceptedRules = True, mStarted = False,
      submitted = False, warningGiven = False, mTimerSec = 0, mViolations = 0,
      mWarningMsg = None, mSoundEnabled = True, mShowFullscreen = False, mLoading = False,
      user = Some ''u1''\<rparr>"

definition mcqWorld :: McqWorld where
  "mcqWorld =
     \<lparr>responses = Map.empty, mStoreAccepts = True, fullscreenElement = False,
      fullscreenGranted = True, fullscreenRequests = 0, route = []\<rparr>"

definition mcqPage :: McqPage where
  "mcqPage = \<lparr>mCur = mcqInitial, mEff = mcqInitial, mWorld = mcqWorld\<rparr>"


section \<open>Output comparison\<close>

text \<open>
  \<open>trim\<close> removes white space at the two ends of the whole string and nothing else:
  the string is its trimmed form between two runs of white space, and the trimmed form
  neither starts nor ends with white space.
\<close>

lemma trim_decomposition:
  "\<exists>pre post. s = pre @ trim s @ post \<and> list_all isWhiteSpace pre \<and> list_all isWhiteSpace post"
proof -
  define rest where "rest = dropWhile isWhiteSpace s"
  have s: "s = takeWhile isWhiteSpace s @ rest"
    by (simp add: rest_def)
  have "rev (takeWhile isWhiteSpace (rev rest) @ dropWhile isWhiteSpace (rev rest)) = rest"
    by (simp only: takeWhile_dropWhile_id rev_rev_ident)
  then have "rev (dropWhile isWhiteSpace (rev rest)) @ rev (takeWhile isWhiteSpace (rev rest)) = rest"
    by (simp only: rev_append)
  then have rest: "rest = trim s @ rev (takeWhile isWhiteSpace (rev rest))"
    by (simp only: trim_def rest_def)
  have 1: "list_all isWhiteSpace (takeWhile isWhiteSpace s)"
    by (simp add: list_all_iff) (meson set_takeWhileD)
  have 2: "list_all isWhiteSpace (rev (takeWhile isWhiteSpace (rev rest)))"
    by (simp add: list_all_iff) (meson set_takeWhileD)
  from s rest have "s = takeWhile isWhiteSpace s @ trim s @ rev (takeWhile isWhiteSpace (rev rest))"
    by simp
  with 1 2 show ?thesis by blast
qed

lemma trim_ends:
  "trim s = [] \<or> (\<not> isWhiteSpace (hd (trim s)) \<and> \<not> isWhiteSpace (last (trim s)))"
proof (cases "trim s = []")
  case True
  then show ?thesis by simp
next
  case False
  define rest where "rest = dropWhile isWhiteSpace s"
  define d where "d = dropWhile isWhiteSpace (rev rest)"
  have t: "trim s = rev d" by (simp add: trim_def d_def rest_def)
  with False have dne: "d \<noteq> []" by simp
  then have "\<not> isWhiteSpace (hd d)"
    unfolding d_def by (rule hd_dropWhile)
  then have l: "\<not> isWhiteSpace (last (trim s))"
    using dne by (simp add: t last_rev)
  have rne: "rest \<noteq> []" using dne by (auto simp: d_def)
  then have hr: "\<not> isWhiteSpace (hd rest)"
    unfolding rest_def by (rule hd_dropWhile)
  have "\<exists>ys. rev rest = ys @ d"
    unfolding d_def by (metis takeWhile_dropWhile_id)
  then obtain ys where "rev rest = ys @ d" by blast
  then have "last (rev rest) = last d" using dne by simp
  then have "hd rest = last d" using rne by (simp add: last_rev)
  then have "\<not> isWhiteSpace (hd (trim s))"
    using hr dne by (simp add: t hd_rev)
  with l show ?thesis by simp
qed

text \<open>
  Claim C4. A test case passes exactly when the run has status \<^verbatim>\<open>OK\<close> and its output
  equals the expected output, both trimmed; the verdict shows the two trimmed strings.
  Trimming takes white space off the two ends of the whole output only, so the
  comparison is the equality of strings on everything between: letter case, the white
  space inside a line or at the end of an inner line, and the spelling of a number all
  count.
\<close>

theorem verdict_passes_iff_trimmed_equal:
  "(passed (verdictOf tc r) \<longleftrightarrow>
      status r = OK \<and> trim (stdout r) = trim (orEmpty (expectedOutput tc)))
   \<and> outputText (verdictOf tc r) = trim (stdout r)
   \<and> expected (verdictOf tc r) = trim (orEmpty (expectedOutput tc))
   \<and> (\<exists>pre post. stdout r = pre @ trim (stdout r) @ post
         \<and> list_all isWhiteSpace pre \<and> list_all isWhiteSpace post)
   \<and> (trim (stdout r) = []
        \<or> (\<not> isWhiteSpace (hd (trim (stdout r))) \<and> \<not> isWhiteSpace (last (trim (stdout r)))))"
  using trim_decomposition [of "stdout r"] trim_ends [of "stdout r"]
  by (simp add: verdictOf_def Let_def)

text \<open>
  The examples of the claim: \<^verbatim>\<open>"5\n"\<close> and \<^verbatim>\<open>"5 "\<close> pass against \<^verbatim>\<open>"5"\<close>;
  \<^verbatim>\<open>"5\t"\<close> and \<^verbatim>\<open>"5 "\<close> differ as strings and are equal once both are trimmed.
  A different letter case, \<^verbatim>\<open>5.0\<close> for \<^verbatim>\<open>5\<close>, a space before an inner line
  break, two spaces for one, or a status other than \<^verbatim>\<open>OK\<close> fail the case.
\<close>

theorem verdict_passes_iff_trimmed_equal_witness:
  "passed (verdictOf (sampleCase 1 ''1'' ''5'') \<lparr>stdout = ''5'' @ [CHR 0x0A], stderr = [], status = OK\<rparr>)
   \<and> passed (verdictOf (sampleCase 1 ''1'' ''5'') \<lparr>stdout = ''5 '', stderr = [], status = OK\<rparr>)
   \<and> ''5'' @ [CHR 0x09] \<noteq> ''5 ''
   \<and> passed (verdictOf (sampleCase 1 ''1'' ''5 '') \<lparr>stdout = ''5'' @ [CHR 0x09], stderr = [], status = OK\<rparr>)
   \<and> \<not> passed (verdictOf (sampleCase 1 ''1'' ''yes'') \<lparr>stdout = ''Yes'', stderr = [], status = OK\<rparr>)
   \<and> \<not> passed (verdictOf (sampleCase 1 ''1'' ''5'') \<lparr>stdout = ''5.0'', stderr = [], status = OK\<rparr>)
   \<and> \<not> passed (verdictOf (sampleCase 1 ''1'' (''1'' @ [CHR 0x0A] @ ''2''))
                  \<lparr>stdout = ''1 '' @ [CHR 0x0A] @ ''2'', stderr = [], status = OK\<rparr>)
   \<and> \<not> passed (verdictOf (sampleCase 1 ''1'' ''1 2'') \<lparr>stdout = ''1  2'', stderr = [], status = OK\<rparr>)
   \<and> \<not> passed (verdictOf (sampleCase 1 ''1'' ''5'') \<lparr>stdout = ''5'', stderr = [], status = RuntimeError\<rparr>)"
  using verdict_passes_iff_trimmed_equal
          [of "sampleCase 1 ''1'' ''5''" "\<lparr>stdout = ''5'' @ [CHR 0x0A], stderr = [], status = OK\<rparr>"]
  by (simp add: verdictOf_def trim_def isWhiteSpace_def sampleCase_def orEmpty_def)

section \<open>The two loops over the test cases\<close>

lemma verdict_failed_iff:
  "(status r = OK \<longrightarrow> outputText (verdictOf tc r) \<noteq> expected (verdictOf tc r))
     = (\<not> passed (verdictOf tc r))"
  by (auto simp: verdictOf_def Let_def)

text \<open>
  When no run rejects, the loop of \<^verbatim>\<open>submit\<close> appends one verdict per test case, in
  the order of the cases, counts the passed ones and keeps \<^verbatim>\<open>"Passed"\<close> only when all
  passed.
\<close>

lemma submitLoop_result:
  "submitLoop rt src lang tcs (collected, passedCount, resultText) w
     = (Inr (collected', passedCount', resultText'), w')
   \<Longrightarrow> \<exists>vs. collected' = collected @ vs
          \<and> list_all2 (verdictFor rt src lang) tcs vs
          \<and> passedCount' = passedCount + length (filter passed vs)
          \<and> resultText' = (if list_all passed vs then resultText else FailedText)"
proof (induction tcs arbitrary: collected passedCount resultText w)
  case Nil
  then show ?case by simp
next
  case (Cons tc tcs)
  from Cons.prems obtain r w1 where
    run: "runLocal rt w src lang (orEmpty (tcInput tc)) = (Inr r, w1)"
    by (auto split: prod.splits sum.splits)
  let ?v = "verdictOf tc r"
  from Cons.prems run have
    "submitLoop rt src lang tcs
       (collected @ [?v], (if passed ?v then passedCount + 1 else passedCount),
        (if \<not> passed ?v then FailedText else resultText)) w1
     = (Inr (collected', passedCount', resultText'), w')"
    by (simp add: Let_def verdict_failed_iff)
  from Cons.IH [OF this] obtain vs where vs:
    "collected' = (collected @ [?v]) @ vs"
    "list_all2 (verdictFor rt src lang) tcs vs"
    "passedCount' = (if passed ?v then passedCount + 1 else passedCount) + length (filter passed vs)"
    "resultText' = (if list_all passed vs then (if \<not> passed ?v then FailedText else resultText)
                    else FailedText)"
    by blast
  have "verdictFor rt src lang tc ?v"
    unfolding verdictFor_def using run by blast
  with vs show ?case
    by (intro exI [of _ "?v # vs"]) auto
qed

text \<open>The same for the loop of \<^verbatim>\<open>handleRun\<close>.\<close>

lemma runLoop_result:
  "runLoop rt src lang tcs collected w = (Inr collected', w')
   \<Longrightarrow> \<exists>vs. collected' = collected @ vs \<and> list_all2 (verdictFor rt src lang) tcs vs"
proof (induction tcs arbitrary: collected w)
  case Nil
  then show ?case by simp
next
  case (Cons tc tcs)
  from Cons.prems obtain r w1 where
    run: "runLocal rt w src lang (orEmpty (tcInput tc)) = (Inr r, w1)"
    by (auto split: prod.splits sum.splits)
  from Cons.prems run have
    "runLoop rt src lang tcs (collected @ [verdictOf tc r]) w1 = (Inr collected', w')"
    by simp
  from Cons.IH [OF this] obtain vs where vs:
    "collected' = (collected @ [verdictOf tc r]) @ vs"
    "list_all2 (verdictFor rt src lang) tcs vs"
    by blast
  have "verdictFor rt src lang tc (verdictOf tc r)"
    unfolding verdictFor_def using run by blast
  with vs show ?case
    by (intro exI [of _ "verdictOf tc r # vs"]) auto
qed

text \<open>What \<^verbatim>\<open>submit\<close> does when its guard passes, no run rejects and the write is accepted.\<close>

lemma submit_document:
  assumes "currentQuestion c = Some q" and "uid c = Some u"
    and "qId q \<notin> submittedQuestions c"
    and "submitLoop rt (code c) (langId c) (casesOf q) ([], 0, Passed) (interp wd)
           = (Inr (collected, passedCount, resultText), w')"
    and "storeAccepts wd"
  shows "submit rt c (st, wd) =
     (st\<lparr>perTestResults := collected,
         submittedQuestions := insert (qId q) (submittedQuestions st), loading := False\<rparr>,
      wd\<lparr>interp := w',
         setDocCalls := setDocCalls wd @ [(u, qId q,
            \<lparr>sCode = code c, sLanguage = langId c, sResult = resultText,
             percentage = percentageOf passedCount (length (casesOf q)),
             passedCnt = passedCount, total = length (casesOf q),
             problemId = qId q, examViolations = violations c,
             durationSec = timerSec c\<rparr>)],
         round2 := (round2 wd)((u, qId q) \<mapsto>
            \<lparr>sCode = code c, sLanguage = langId c, sResult = resultText,
             percentage = percentageOf passedCount (length (casesOf q)),
             passedCnt = passedCount, total = length (casesOf q),
             problemId = qId q, examViolations = violations c,
             durationSec = timerSec c\<rparr>)\<rparr>)"
  using assms by (simp add: submit_def Let_def)

section \<open>The sample coding session, evaluated\<close>

lemma sample_current: "currentQuestion (codingStarted src now done) = Some questionOne"
  by (simp add: currentQuestion_def codingStarted_def loadQuestions_def codingInitial_def Let_def)

lemma sample_code: "code (codingStarted src now done) = src"
  by (simp add: code_def codeKey_def codingStarted_def loadQuestions_def codingInitial_def Let_def
      questionOne_def langKey_def orEmpty_def currentQuestion_def)

lemma sample_fields:
  "uid (codingStarted src now done) = Some ''u1''"
  "langId (codingStarted src now done) = JavaScript"
  "submittedQuestions (codingStarted src now done) = set done"
  "violations (codingStarted src now done) = 0"
  "timerSec (codingStarted src now done) = 0"
  by (simp_all add: codingStarted_def loadQuestions_def codingInitial_def Let_def)

lemma sample_echo_run:
  "runLocal sampleRuntime n ''print(input())'' JavaScript inp =
     (Inr \<lparr>stdout = (case splitNl inp of [] \<Rightarrow> [] | l # ls \<Rightarrow> l), stderr = [], status = OK\<rparr>,
      Suc n)"
  by (simp add: runLocal_def sampleRuntime_def sampleJs_def)

lemma sample_loop:
  "submitLoop sampleRuntime ''print(input())'' JavaScript (casesOf questionOne) ([], 0, Passed) 0
     = (Inr ([verdictOf (sampleCase 1 ''1'' ''1'') \<lparr>stdout = ''1'', stderr = [], status = OK\<rparr>,
              verdictOf (sampleCase 2 ''2'' ''3'') \<lparr>stdout = ''2'', stderr = [], status = OK\<rparr>,
              verdictOf (sampleCase 3 ''4'' ''4'') \<lparr>stdout = ''4'', stderr = [], status = OK\<rparr>],
             2, FailedText), 3)"
  by (simp add: casesOf_def questionOne_def sample_echo_run sampleCase_def orEmpty_def
      verdictOf_def trim_def isWhiteSpace_def Let_def)

lemma sample_verdicts_passed:
  "passed (verdictOf (sampleCase 1 ''1'' ''1'') \<lparr>stdout = ''1'', stderr = [], status = OK\<rparr>)"
  "\<not> passed (verdictOf (sampleCase 2 ''2'' ''3'') \<lparr>stdout = ''2'', stderr = [], status = OK\<rparr>)"
  "passed (verdictOf (sampleCase 3 ''4'' ''4'') \<lparr>stdout = ''4'', stderr = [], status = OK\<rparr>)"
  by (simp_all add: sampleCase_def orEmpty_def verdictOf_def trim_def isWhiteSpace_def Let_def)

text \<open>
  Two of three as doubles: \<open>2 / 3\<close> is \<open>6004799503160661 * 2 ^ - 53\<close>, its product
  with 100 is \<open>4691249611844266 * 2 ^ - 46\<close>, a little below \<open>66.67\<close>.
\<close>

lemma two_thirds_as_double:
  "jsDivide 2 3 = \<lparr>mant = 6004799503160661, expo = - 53\<rparr>"
  "jsTimes \<lparr>mant = 6004799503160661, expo = - 53\<rparr> 100 = \<lparr>mant = 4691249611844266, expo = - 46\<rparr>"
  "mathRound \<lparr>mant = 4691249611844266, expo = - 46\<rparr> = 67"
  by code_simp+

text \<open>
  The rounding of doubles shows where \<open>100 * p / t\<close> is exactly halfway between two
  integers: 23 of 40 is \<open>57.5\<close> in exact arithmetic and \<open>57.49999999999999\<close> as a
  double, so the page stores 57; 7 of 200 is \<open>3.5\<close> and \<open>3.5000000000000004\<close> as a
  double, stored as 4; 1 of 8 is \<open>12.5\<close> as a double too, stored as 13.
\<close>

lemma percentage_examples:
  "percentageOf 2 3 = 67" "percentageOf 23 40 = 57" "percentageOf 1 8 = 13"
  "percentageOf 7 200 = 4" "percentageOf 0 5 = 0" "percentageOf 5 5 = 100"
  "percentageOf 0 0 = 0"
  by code_simp+

section \<open>The arithmetic of doubles\<close>

text \<open>
  The model of doubles is the arithmetic of IEEE 754 on the values met here: the
  significand of a quotient of two positive integers has exactly 53 bits, the double is
  within half a unit in the last place of the quotient, and \<open>mathRound\<close> is the
  integer nearest to the double with a half going up. The double product of the
  percentage of \<open>p\<close> out of \<open>t\<close> is within \<open>2 ^ - 45\<close> of \<open>100 * p / t\<close>. So,
  for fewer than \<open>2 ^ 32\<close> test cases (the bound on the length of an array), the
  percentage is \<open>100 * p / t\<close> rounded to the nearest integer whenever that is not
  exactly halfway between two integers, and one of the two when it is.
\<close>

lemma bitLength_bounds: "0 < n \<Longrightarrow> 2 ^ bitLength n \<le> 2 * n \<and> n < 2 ^ bitLength n"
proof (induction n rule: bitLength.induct)
  case (1 n)
  show ?case
  proof (cases "n div 2 \<le> 0")
    case True
    with "1.prems" have "n = 1" by linarith
    then show ?thesis by (simp add: bitLength.simps [of 1] bitLength.simps [of 0])
  next
    case False
    then have pos: "0 < n div 2" by simp
    from "1.prems" have nle: "\<not> n \<le> 0" by simp
    from "1.IH" [OF nle pos]
    have ih: "2 ^ bitLength (n div 2) \<le> 2 * (n div 2)" "n div 2 < 2 ^ bitLength (n div 2)"
      by simp_all
    have b: "bitLength n = Suc (bitLength (n div 2))"
      using nle by (simp add: bitLength.simps [of n])
    from ih show ?thesis
      unfolding b by (simp; linarith)
  qed
qed

lemma roundTiesEven_nearest:
  "0 < d \<Longrightarrow> \<bar>2 * (roundTiesEven n d * d - n)\<bar> \<le> d"
proof -
  assume d: "0 < d"
  define q where "q = n div d"
  define r where "r = n mod d"
  have n: "n = q * d + r" by (simp add: q_def r_def)
  have r: "0 \<le> r" "r < d" using d by (simp_all add: r_def)
  show ?thesis
    using r by (auto simp: roundTiesEven_def Let_def q_def [symmetric] r_def [symmetric] n algebra_simps)
qed

lemma roundTiesEven_tie:
  "0 < d \<Longrightarrow> 2 * (n mod d) = d \<Longrightarrow> even (roundTiesEven n d)"
  by (auto simp: roundTiesEven_def Let_def)

lemma two_powi_split: "(2::real) powi k = (if 0 \<le> k then 2 ^ nat k else 1 / 2 ^ nat (- k))"
  by (simp add: power_int_def field_simps)

lemma exponent_bracket:
  fixes n d :: int
  assumes n: "0 < n" and d: "0 < d"
  defines "k \<equiv> int (bitLength n) - int (bitLength d)"
  defines "e \<equiv> (if (if 0 \<le> k then d * 2 ^ nat k \<le> n else d \<le> n * 2 ^ nat (- k)) then k else k - 1)"
  shows "2 powi e \<le> real_of_int n / real_of_int d \<and> real_of_int n / real_of_int d < 2 powi (e + 1)"
proof -
  let ?q = "real_of_int n / real_of_int d"
  from bitLength_bounds [OF n] have bn: "(2::real) ^ bitLength n \<le> 2 * real_of_int n" "real_of_int n < 2 ^ bitLength n"
    by (metis of_int_le_iff of_int_mult of_int_numeral of_int_power, metis of_int_less_iff of_int_numeral of_int_power)
  from bitLength_bounds [OF d] have bd: "(2::real) ^ bitLength d \<le> 2 * real_of_int d" "real_of_int d < 2 ^ bitLength d"
    by (metis of_int_le_iff of_int_mult of_int_numeral of_int_power, metis of_int_less_iff of_int_numeral of_int_power)
  have dpos: "0 < real_of_int d" using d by simp
  have kk: "(2::real) powi k = 2 ^ bitLength n / 2 ^ bitLength d"
    unfolding k_def by (simp add: power_int_diff)
  have up: "?q < 2 powi (k + 1)"
  proof -
    have "?q < 2 ^ bitLength n / real_of_int d"
      using bn(2) dpos by (simp add: divide_strict_right_mono)
    also have "\<dots> \<le> 2 ^ bitLength n / (2 ^ bitLength d / 2)"
      using bd(1) dpos by (intro divide_left_mono) (simp_all add: field_simps)
    also have "\<dots> = (2::real) powi (k + 1)"
      by (simp add: power_int_add kk)
    finally show ?thesis .
  qed
  have lo: "2 powi (k - 1) \<le> ?q"
  proof -
    have "(2::real) powi (k - 1) = (2 ^ bitLength n / 2) / 2 ^ bitLength d"
      by (simp add: power_int_diff kk)
    also have "\<dots> \<le> real_of_int n / 2 ^ bitLength d"
      using bn(1) by (simp add: field_simps)
    also have "\<dots> \<le> ?q"
      using bd(2) dpos n by (intro divide_left_mono) (simp_all)
    finally show ?thesis .
  qed
  have c: "(if 0 \<le> k then d * 2 ^ nat k \<le> n else d \<le> n * 2 ^ nat (- k)) \<longleftrightarrow> 2 powi k \<le> ?q"
  proof (cases "0 \<le> k")
    case True
    have "(d * 2 ^ nat k \<le> n) = (real_of_int (d * 2 ^ nat k) \<le> real_of_int n)"
      by (simp only: of_int_le_iff)
    also have "\<dots> = (2 ^ nat k \<le> ?q)"
      using dpos by (simp add: field_simps)
    finally show ?thesis using True by (simp add: two_powi_split)
  next
    case False
    have "(d \<le> n * 2 ^ nat (- k)) = (real_of_int d \<le> real_of_int (n * 2 ^ nat (- k)))"
      by (simp only: of_int_le_iff)
    also have "\<dots> = (1 / 2 ^ nat (- k) \<le> ?q)"
      using dpos by (simp add: field_simps)
    finally show ?thesis using False by (simp add: two_powi_split)
  qed
  show ?thesis
  proof (cases "2 powi k \<le> ?q")
    case True
    with c have "e = k" by (simp add: e_def)
    with True up show ?thesis by simp
  next
    case False
    with c have "e = k - 1" by (simp add: e_def)
    with False lo show ?thesis by simp
  qed
qed

lemma toDouble_nearest:
  fixes n d :: int
  assumes n: "0 < n" and d: "0 < d"
  shows "2 ^ 52 \<le> mant (toDouble n d) \<and> mant (toDouble n d) \<le> 2 ^ 53
       \<and> \<bar>dblValue (toDouble n d) - real_of_int n / real_of_int d\<bar>
           \<le> 2 powi expo (toDouble n d) / 2
       \<and> 2 powi (expo (toDouble n d) + 52) \<le> real_of_int n / real_of_int d
       \<and> real_of_int n / real_of_int d < 2 powi (expo (toDouble n d) + 53)"
proof -
  define k where "k = int (bitLength n) - int (bitLength d)"
  define e where "e = (if (if 0 \<le> k then d * 2 ^ nat k \<le> n else d \<le> n * 2 ^ nat (- k)) then k else k - 1)"
  define s where "s = 52 - e"
  define N where "N = (if 0 \<le> s then n * 2 ^ nat s else n)"
  define D where "D = (if 0 \<le> s then d else d * 2 ^ nat (- s))"
  define m where "m = roundTiesEven N D"
  let ?q = "real_of_int n / real_of_int d"
  let ?v = "?q * 2 powi s"
  have td: "toDouble n d = \<lparr>mant = m, expo = - s\<rparr>"
    using n by (simp add: toDouble_def Let_def m_def N_def D_def s_def e_def k_def)
  have "2 powi e \<le> ?q \<and> ?q < 2 powi (e + 1)"
    unfolding e_def k_def by (rule exponent_bracket [OF n d])
  then have br: "2 powi e \<le> ?q" "?q < 2 powi (e + 1)"
    by blast+
  have p52: "(2::real) powi e * 2 powi s = 2 ^ 52"
    by (simp add: s_def flip: power_int_add)
  have p53: "(2::real) powi (e + 1) * 2 powi s = 2 ^ 53"
    by (simp add: s_def flip: power_int_add)
  have spos: "(0::real) < 2 powi s" by simp
  have vlo: "2 ^ 52 \<le> ?v"
    using br(1) spos p52 by (metis mult_le_cancel_right_pos)
  have vhi: "?v < 2 ^ 53"
    using br(2) spos p53 by (metis mult_less_cancel_right_pos)
  have Dpos: "0 < D" using d by (simp add: D_def)
  have ND: "real_of_int N / real_of_int D = ?v"
    using d by (simp add: N_def D_def two_powi_split field_simps)
  from roundTiesEven_nearest [OF Dpos, of N] have "\<bar>2 * (m * D - N)\<bar> \<le> D"
    by (simp add: m_def)
  then have "\<bar>real_of_int (2 * (m * D - N))\<bar> \<le> real_of_int D"
    by (metis of_int_abs of_int_le_iff)
  then have "\<bar>2 * (real_of_int m - real_of_int N / real_of_int D)\<bar> * real_of_int D \<le> 1 * real_of_int D"
    using Dpos by (simp add: abs_mult field_simps)
  then have "\<bar>2 * (real_of_int m - real_of_int N / real_of_int D)\<bar> \<le> 1"
    using Dpos by (simp only: mult_le_cancel_right_pos of_int_0_less_iff)
  then have "\<bar>2 * (real_of_int m - ?v)\<bar> \<le> 1"
    by (simp only: ND)
  then have near: "\<bar>real_of_int m - ?v\<bar> \<le> 1 / 2"
    by (simp only: abs_mult) simp
  have "2 ^ 52 - 1 < real_of_int m" using near vlo by linarith
  then have "real_of_int (2 ^ 52 - 1) < real_of_int m" by simp
  then have "2 ^ 52 - 1 < m" by (simp only: of_int_less_iff)
  then have mlo: "2 ^ 52 \<le> m" by simp
  have "real_of_int m < 2 ^ 53 + 1" using near vhi by linarith
  then have "real_of_int m < real_of_int (2 ^ 53 + 1)" by simp
  then have "m < 2 ^ 53 + 1" by (simp only: of_int_less_iff)
  then have mhi: "m \<le> 2 ^ 53" by simp
  have "\<bar>dblValue (toDouble n d) - ?q\<bar> = \<bar>(real_of_int m - ?v) * 2 powi (- s)\<bar>"
    by (simp add: td dblValue_def algebra_simps power_int_minus)
  also have "\<dots> = \<bar>real_of_int m - ?v\<bar> * 2 powi (- s)"
    by (simp add: abs_mult)
  also have "\<dots> \<le> (1 / 2) * 2 powi (- s)"
    using near by (intro mult_right_mono) simp_all
  finally have "\<bar>dblValue (toDouble n d) - ?q\<bar> \<le> 2 powi (- s) / 2" by simp
  then have near': "\<bar>dblValue (toDouble n d) - ?q\<bar> \<le> 2 powi expo (toDouble n d) / 2"
    by (simp add: td)
  have ex: "expo (toDouble n d) + 52 = e" "expo (toDouble n d) + 53 = e + 1"
    by (simp_all add: td s_def)
  have b: "2 powi (expo (toDouble n d) + 52) \<le> ?q" "?q < 2 powi (expo (toDouble n d) + 53)"
    unfolding ex using br by blast+
  from mlo mhi have "2 ^ 52 \<le> mant (toDouble n d)" "mant (toDouble n d) \<le> 2 ^ 53"
    by (simp_all add: td)
  with near' b show ?thesis by blast
qed

lemma mathRound_rounds:
  assumes "0 \<le> mant x"
  shows "mathRound x = \<lfloor>dblValue x + 1 / 2\<rfloor>"
proof (cases "0 \<le> expo x")
  case True
  then have "dblValue x = real_of_int (mant x * 2 ^ nat (expo x))"
    by (simp add: dblValue_def two_powi_split)
  then have "\<lfloor>dblValue x + 1 / 2\<rfloor> = mant x * 2 ^ nat (expo x)"
    by (simp only: floor_eq_iff) simp
  with True show ?thesis by (simp add: mathRound_def)
next
  case False
  define j where "j = nat (- expo x)"
  have v: "dblValue x + 1 / 2 = real_of_int (2 * mant x + 2 ^ j) / real_of_int (2 ^ (j + 1))"
    using False by (simp add: dblValue_def two_powi_split j_def field_simps)
  have "\<lfloor>dblValue x + 1 / 2\<rfloor> = (2 * mant x + 2 ^ j) div 2 ^ (j + 1)"
    unfolding v by (rule floor_divide_of_int_eq)
  with False show ?thesis by (simp add: mathRound_def j_def)
qed

lemma product_close:
  assumes p: "p \<le> t" and t: "0 < t"
  shows "\<exists>x. percentageOf p t = \<lfloor>x + 1 / 2\<rfloor> \<and> \<bar>x - 100 * real p / real t\<bar> \<le> 1 / 2 ^ 45"
proof (cases "p = 0")
  case True
  have "toDouble 0 d = \<lparr>mant = 0, expo = 0\<rparr>" for d by (simp add: toDouble_def)
  then have "percentageOf 0 t = 0"
    using t by (simp add: percentageOf_def jsDivide_def jsTimes_def mathRound_def)
  with True show ?thesis by (intro exI [of _ 0]) simp
next
  case False
  define q where "q = real p / real t"
  define x1 where "x1 = jsDivide (int p) (int t)"
  define x2 where "x2 = jsTimes x1 100"
  have pp: "0 < int p" "0 < int t" using False t by simp_all
  have q1: "q \<le> 1" "0 < q" using p t False by (simp_all add: q_def)
  have qq: "real_of_int (int p) / real_of_int (int t) = q" by (simp add: q_def)
  from toDouble_nearest [OF pp] have d1:
    "2 ^ 52 \<le> mant x1" "\<bar>dblValue x1 - q\<bar> \<le> 2 powi expo x1 / 2" "2 powi (expo x1 + 52) \<le> q"
    unfolding qq by (simp_all add: x1_def jsDivide_def)
  have "(2::real) powi (expo x1 + 52) \<le> 2 powi 0"
    using d1(3) q1(1) by simp
  then have "expo x1 + 52 \<le> 0"
    by (rule power_int_le_imp_le_exp [rotated]) simp_all
  then have "(2::real) powi expo x1 \<le> 2 powi (- 52)"
    by (intro power_int_increasing) simp_all
  with d1(2) have e1: "\<bar>dblValue x1 - q\<bar> \<le> 1 / 2 ^ 53"
    by (simp add: power_int_minus field_simps)
  have x1neg: "expo x1 < 0" using \<open>expo x1 + 52 \<le> 0\<close> by simp
  have m1: "0 < mant x1 * 100" using d1(1) by (smt (verit) zero_less_power mult_pos_pos)
  have x2: "x2 = toDouble (mant x1 * 100) (2 ^ nat (- expo x1))"
    using x1neg by (simp add: x2_def jsTimes_def)
  have y: "real_of_int (mant x1 * 100) / real_of_int (2 ^ nat (- expo x1)) = dblValue x1 * 100"
    using x1neg by (simp add: dblValue_def two_powi_split)
  have dpos: "(0::int) < 2 ^ nat (- expo x1)" by simp
  from toDouble_nearest [OF m1 dpos] have d2:
    "0 \<le> mant x2" "\<bar>dblValue x2 - dblValue x1 * 100\<bar> \<le> 2 powi expo x2 / 2"
    "2 powi (expo x2 + 52) \<le> dblValue x1 * 100"
    unfolding y x2 [symmetric] by simp_all
  have "dblValue x1 \<le> 1 + 1 / 2 ^ 53"
    using e1 q1 by (simp only: abs_le_iff) linarith
  then have "dblValue x1 * 100 < 2 powi 7"
    by simp
  with d2(3) have "(2::real) powi (expo x2 + 52) < 2 powi 7" by linarith
  then have "expo x2 + 52 < 7"
    by (rule power_int_le_imp_less_exp [rotated]) simp_all
  then have "expo x2 \<le> - 46" by simp
  then have "(2::real) powi expo x2 \<le> 2 powi (- 46)"
    by (intro power_int_increasing) simp_all
  with d2(2) have e2: "\<bar>dblValue x2 - dblValue x1 * 100\<bar> \<le> 1 / 2 ^ 47"
    by (simp add: power_int_minus field_simps)
  have "\<bar>b - 100 * c\<bar> \<le> \<bar>b - a * 100\<bar> + 100 * \<bar>a - c\<bar>" for a b c :: real
    by (simp add: abs_real_def)
  then have "\<bar>dblValue x2 - 100 * q\<bar>
      \<le> \<bar>dblValue x2 - dblValue x1 * 100\<bar> + 100 * \<bar>dblValue x1 - q\<bar>" .
  with e1 e2 have "\<bar>dblValue x2 - 100 * q\<bar> \<le> 1 / 2 ^ 47 + 100 / 2 ^ 53"
    by simp
  then have e3: "\<bar>dblValue x2 - 100 * q\<bar> \<le> 1 / 2 ^ 45"
    by simp
  have r: "percentageOf p t = \<lfloor>dblValue x2 + 1 / 2\<rfloor>"
    using t mathRound_rounds [OF d2(1)] by (simp add: percentageOf_def x2_def x1_def)
  have "100 * q = 100 * real p / real t" by (simp add: q_def)
  with e3 r show ?thesis by (intro exI [of _ "dblValue x2"]) simp
qed

lemma percentage_close:
  assumes p: "p \<le> t" and t: "0 < t"
  shows "\<bar>real_of_int (percentageOf p t) - 100 * real p / real t\<bar> \<le> 1 / 2 + 1 / 2 ^ 45"
proof -
  from product_close [OF assms] obtain x where x:
    "percentageOf p t = \<lfloor>x + 1 / 2\<rfloor>" "\<bar>x - 100 * real p / real t\<bar> \<le> 1 / 2 ^ 45"
    by blast
  define eps where "eps = (1::real) / 2 ^ 45"
  have fl: "real_of_int \<lfloor>x + 1 / 2\<rfloor> \<le> x + 1 / 2" "x + 1 / 2 < real_of_int \<lfloor>x + 1 / 2\<rfloor> + 1"
    by linarith+
  from x(2) have "\<bar>x - 100 * real p / real t\<bar> \<le> eps" by (simp only: eps_def)
  with fl have "\<bar>real_of_int \<lfloor>x + 1 / 2\<rfloor> - 100 * real p / real t\<bar> \<le> 1 / 2 + eps"
    by (simp only: abs_le_iff) linarith
  then show ?thesis by (simp only: x(1) eps_def)
qed

lemma percentage_range:
  assumes "p \<le> t" and "0 < t"
  shows "0 \<le> percentageOf p t \<and> percentageOf p t \<le> 100"
proof -
  define x where "x = 100 * real p / real t"
  have x: "0 \<le> x" "x \<le> 100" using assms by (simp_all add: x_def field_simps)
  have "(1::real) / 2 ^ 45 < 1 / 2" by simp
  with percentage_close [OF assms] have "\<bar>real_of_int (percentageOf p t) - x\<bar> < 1"
    unfolding x_def by linarith
  with x have "- 1 < real_of_int (percentageOf p t)" "real_of_int (percentageOf p t) < 101"
    by (simp_all only: abs_less_iff) linarith+
  then have "- 1 < percentageOf p t" "percentageOf p t < 101"
    by linarith+
  then show ?thesis by simp
qed

lemma exactHalf_iff:
  assumes t: "0 < t"
  shows "exactHalf p t \<longleftrightarrow> (\<exists>k::int. 100 * real p / real t = real_of_int k + 1 / 2)"
proof
  assume "exactHalf p t"
  then have m: "(200 * p) mod (2 * t) = t" by (simp add: exactHalf_def)
  define k where "k = (200 * p) div (2 * t)"
  have "k * (2 * t) + (200 * p) mod (2 * t) = 200 * p"
    unfolding k_def by (rule div_mult_mod_eq)
  with m have "200 * p = 2 * t * k + t"
    by (simp only: mult.commute add.commute)
  then have "real (200 * p) = real (2 * t * k + t)" by simp
  then have "100 * real p / real t = real k + 1 / 2"
    using t by (simp add: field_simps)
  then have "100 * real p / real t = real_of_int (int k) + 1 / 2" by simp
  then show "\<exists>k::int. 100 * real p / real t = real_of_int k + 1 / 2" by blast
next
  assume "\<exists>k::int. 100 * real p / real t = real_of_int k + 1 / 2"
  then obtain k :: int where k: "100 * real p / real t = real_of_int k + 1 / 2" by blast
  then have "real_of_int (int (200 * p)) = real_of_int ((2 * k + 1) * int t)"
    using t by (simp add: field_simps)
  then have e: "int (200 * p) = (2 * k + 1) * int t"
    by (simp only: of_int_eq_iff)
  have "0 \<le> k"
  proof (rule ccontr)
    assume "\<not> 0 \<le> k"
    then have "2 * k + 1 < 0" by simp
    then have "(2 * k + 1) * int t < 0" using t by (simp add: mult_less_0_iff)
    with e show False by simp
  qed
  then obtain j where j: "k = int j" by (metis nonneg_int_cases)
  from e have "int (200 * p) = int ((2 * j + 1) * t)" by (simp add: j algebra_simps)
  then have "200 * p = (2 * j + 1) * t" by (simp only: of_nat_eq_iff)
  then have "200 * p = t + j * (2 * t)" by (simp add: algebra_simps)
  then have "(200 * p) mod (2 * t) = t mod (2 * t)" by (simp only: mod_mult_self1)
  then show "exactHalf p t" using t by (simp add: exactHalf_def)
qed

lemma percentage_exact:
  assumes p: "p \<le> t" and t: "0 < t" and small: "t < 2 ^ 32" and nh: "\<not> exactHalf p t"
  shows "percentageOf p t = round (100 * real p / real t)"
proof -
  define y where "y = 100 * real p / real t"
  define k where "k = \<lfloor>y + 1 / 2\<rfloor>"
  from product_close [OF p t] obtain x where x:
    "percentageOf p t = \<lfloor>x + 1 / 2\<rfloor>" "\<bar>x - y\<bar> \<le> 1 / 2 ^ 45"
    unfolding y_def by blast
  have tpos: "0 < real t" using t by simp
  have yy: "y + 1 / 2 = real_of_int (int (200 * p + t)) / real_of_int (int (2 * t))"
    using t by (simp add: y_def field_simps)
  have kdiv: "k = int (200 * p + t) div int (2 * t)"
    unfolding k_def yy by (rule floor_divide_of_int_eq)
  define r where "r = int (200 * p + t) mod int (2 * t)"
  have split: "int (200 * p + t) = k * int (2 * t) + r"
    by (simp only: kdiv r_def div_mult_mod_eq)
  have r0: "0 \<le> r" "r < int (2 * t)" using t by (simp_all add: r_def)
  have "r \<noteq> 0"
  proof
    assume "r = 0"
    with split have e: "int (200 * p + t) = k * int (2 * t)" by simp
    then have "real_of_int (int (200 * p + t)) = real_of_int (k * int (2 * t))" by simp
    then have "100 * real p / real t = real_of_int (k - 1) + 1 / 2"
      using t by (simp add: field_simps)
    then have "exactHalf p t" using exactHalf_iff [OF t] by blast
    with nh show False by simp
  qed
  with r0 have r1: "1 \<le> r" "r \<le> int (2 * t) - 1" by simp_all
  have yr: "y + 1 / 2 = real_of_int k + real_of_int r / real_of_int (int (2 * t))"
    unfolding yy split using t by (simp add: field_simps)
  define h where "h = 1 / real_of_int (int (2 * t))"
  have hpos: "0 < h" using t by (simp add: h_def)
  have "real_of_int 1 \<le> real_of_int r" "real_of_int r \<le> real_of_int (int (2 * t) - 1)"
    using r1 by (simp_all only: of_int_le_iff)
  then have "1 * h \<le> real_of_int r * h" "real_of_int r * h \<le> real_of_int (int (2 * t) - 1) * h"
    using hpos by (simp_all only: mult_le_cancel_right_pos)
  moreover have "real_of_int (int (2 * t) - 1) * h = 1 - h"
    using t by (simp add: h_def field_simps)
  moreover have "real_of_int r / real_of_int (int (2 * t)) = real_of_int r * h"
    by (simp add: h_def)
  ultimately have lo: "real_of_int k + h \<le> y + 1 / 2" and hi: "y + 1 / 2 \<le> real_of_int k + 1 - h"
    unfolding yr by simp_all
  have "real t < 2 ^ 32" using small by (metis of_nat_less_iff of_nat_numeral of_nat_power)
  then have "real_of_int (int (2 * t)) < 2 ^ 33" by simp
  then have "1 / 2 ^ 33 < h"
    unfolding h_def using t by (intro divide_strict_left_mono) simp_all
  moreover have "(1::real) / 2 ^ 45 < 1 / 2 ^ 33" by simp
  ultimately have eps: "1 / 2 ^ 45 < h" by linarith
  from x(2) have "y - 1 / 2 ^ 45 \<le> x" "x \<le> y + 1 / 2 ^ 45"
    by (simp_all only: abs_le_iff) linarith+
  with lo hi eps have "real_of_int k \<le> x + 1 / 2" "x + 1 / 2 < real_of_int k + 1"
    by linarith+
  then have "\<lfloor>x + 1 / 2\<rfloor> = k" by (simp only: floor_eq_iff)
  then show ?thesis by (simp add: x(1) k_def round_def y_def)
qed

lemma percentage_at_half:
  assumes p: "p \<le> t" and t: "0 < t" and h: "exactHalf p t"
  shows "percentageOf p t = \<lfloor>100 * real p / real t\<rfloor>
       \<or> percentageOf p t = \<lceil>100 * real p / real t\<rceil>"
proof -
  from h exactHalf_iff [OF t] obtain k :: int where
    k: "100 * real p / real t = real_of_int k + 1 / 2" by blast
  have fl: "\<lfloor>100 * real p / real t\<rfloor> = k" unfolding k by (simp only: floor_eq_iff) simp
  have ce: "\<lceil>100 * real p / real t\<rceil> = k + 1" unfolding k by (simp only: ceiling_eq_iff) simp
  have "(1::real) / 2 ^ 45 < 1 / 2" by simp
  with percentage_close [OF p t]
  have "\<bar>real_of_int (percentageOf p t) - (real_of_int k + 1 / 2)\<bar> < 1"
    unfolding k by linarith
  then have "real_of_int k - 1 / 2 < real_of_int (percentageOf p t)"
    "real_of_int (percentageOf p t) < real_of_int k + 3 / 2"
    by (simp_all only: abs_less_iff) linarith+
  then have "k - 1 < percentageOf p t" "percentageOf p t < k + 2" by linarith+
  then have "percentageOf p t = k \<or> percentageOf p t = k + 1" by linarith
  then show ?thesis by (simp only: fl ce)
qed

section \<open>Submitting a coding question\<close>

text \<open>
  Claim C3, as amended. When \<^verbatim>\<open>submit\<close> passes its guard, every run returns and the
  store accepts the write, the stored document counts the passed verdicts in
  \<^verbatim>\<open>passed\<close> and the test cases in \<^verbatim>\<open>total\<close>; its \<^verbatim>\<open>percentage\<close> is
  \<^verbatim>\<open>Math.round((passed / total) * 100)\<close> on doubles when there is a test case and 0
  (with no division) when there is none. For fewer than \<open>2 ^ 32\<close> test cases that is
  \<open>passed / total * 100\<close> rounded to the nearest integer whenever the exact value is
  not halfway between two integers; when it is, the percentage is one of those two
  integers. \<^verbatim>\<open>result\<close> is \<^verbatim>\<open>"Passed"\<close> only when every case passed.
\<close>

theorem submit_stores_rounded_percentage:
  assumes "currentQuestion c = Some q" and "uid c = Some u"
    and "qId q \<notin> submittedQuestions c"
    and "submitLoop rt (code c) (langId c) (casesOf q) ([], 0, Passed) (interp wd)
           = (Inr (collected, passedCount, resultText), w')"
    and "storeAccepts wd"
  shows "\<exists>document.
       round2 (snd (submit rt c (st, wd))) (u, qId q) = Some document
     \<and> perTestResults (fst (submit rt c (st, wd))) = collected
     \<and> total document = length (casesOf q)
     \<and> total document = length collected
     \<and> passedCnt document = length (filter passed collected)
     \<and> percentage document =
         (if total document > 0
          then mathRound (jsTimes (jsDivide (int (passedCnt document)) (int (total document))) 100)
          else 0)
     \<and> (total document = 0 \<longrightarrow> percentage document = 0)
     \<and> (0 < total document \<and> total document < 2 ^ 32
          \<and> \<not> exactHalf (passedCnt document) (total document) \<longrightarrow>
           percentage document
             = round (real (passedCnt document) / real (total document) * 100))
     \<and> (0 < total document \<and> exactHalf (passedCnt document) (total document) \<longrightarrow>
           percentage document = \<lfloor>real (passedCnt document) / real (total document) * 100\<rfloor>
           \<or> percentage document = \<lceil>real (passedCnt document) / real (total document) * 100\<rceil>)
     \<and> sResult document = (if list_all passed collected then Passed else FailedText)"
proof -
  from submitLoop_result [OF assms(4)] obtain vs where vs:
    "collected = [] @ vs" "list_all2 (verdictFor rt (code c) (langId c)) (casesOf q) vs"
    "passedCount = 0 + length (filter passed vs)"
    "resultText = (if list_all passed vs then Passed else FailedText)"
    by blast
  from vs(2) have len: "length (casesOf q) = length vs"
    by (rule list_all2_lengthD)
  let ?p = "length (filter passed vs)"
  let ?t = "length vs"
  have le: "?p \<le> ?t" by simp
  have sw: "real ?p / real ?t * 100 = 100 * real ?p / real ?t" by simp
  have exact: "0 < ?t \<and> ?t < 2 ^ 32 \<and> \<not> exactHalf ?p ?t \<longrightarrow>
      percentageOf ?p ?t = round (real ?p / real ?t * 100)"
    unfolding sw using percentage_exact [OF le] by blast
  have half: "0 < ?t \<and> exactHalf ?p ?t \<longrightarrow>
      percentageOf ?p ?t = \<lfloor>real ?p / real ?t * 100\<rfloor>
      \<or> percentageOf ?p ?t = \<lceil>real ?p / real ?t * 100\<rceil>"
    unfolding sw using percentage_at_half [OF le] by blast
  have zero: "percentageOf a 0 = 0" for a by (simp add: percentageOf_def)
  have body: "percentageOf a b = (if b > 0 then mathRound (jsTimes (jsDivide (int a) (int b)) 100) else 0)"
    for a b by (simp add: percentageOf_def)
  let ?document = "\<lparr>sCode = code c, sLanguage = langId c, sResult = resultText,
             percentage = percentageOf passedCount (length (casesOf q)),
             passedCnt = passedCount, total = length (casesOf q),
             problemId = qId q, examViolations = violations c,
             durationSec = timerSec c\<rparr>"
  have stored: "round2 (snd (submit rt c (st, wd))) (u, qId q) = Some ?document"
    "perTestResults (fst (submit rt c (st, wd))) = collected"
    by (simp_all add: submit_document [OF assms])
  have fields: "total ?document = ?t" "passedCnt ?document = ?p"
    "percentage ?document = percentageOf ?p ?t"
    "sResult ?document = (if list_all passed collected then Passed else FailedText)"
    "collected = vs"
    using vs(1,3,4) len by simp_all
  show ?thesis
  proof (intro exI [of _ ?document] conjI)
    show "round2 (snd (submit rt c (st, wd))) (u, qId q) = Some ?document" by (rule stored)
    show "perTestResults (fst (submit rt c (st, wd))) = collected" by (rule stored)
    show "total ?document = length (casesOf q)" by simp
    show "total ?document = length collected" using fields by simp
    show "passedCnt ?document = length (filter passed collected)" using fields by simp
    show "percentage ?document =
         (if total ?document > 0
          then mathRound (jsTimes (jsDivide (int (passedCnt ?document)) (int (total ?document))) 100)
          else 0)"
      by (simp add: body)
    show "total ?document = 0 \<longrightarrow> percentage ?document = 0"
      by (simp add: zero)
    show "0 < total ?document \<and> total ?document < 2 ^ 32
          \<and> \<not> exactHalf (passedCnt ?document) (total ?document) \<longrightarrow>
           percentage ?document
             = round (real (passedCnt ?document) / real (total ?document) * 100)"
      using exact unfolding fields(1-3) .
    show "0 < total ?document \<and> exactHalf (passedCnt ?document) (total ?document) \<longrightarrow>
           percentage ?document = \<lfloor>real (passedCnt ?document) / real (total ?document) * 100\<rfloor>
           \<or> percentage ?document = \<lceil>real (passedCnt ?document) / real (total ?document) * 100\<rceil>"
      using half unfolding fields(1-3) .
    show "sResult ?document = (if list_all passed collected then Passed else FailedText)"
      by (rule fields)
  qed
qed

text \<open>
  Scenario A: three test cases, the first and the third pass, the second fails; two
  thirds of 100 is not halfway between two integers, and the stored document has
  \<^verbatim>\<open>passed = 2\<close>, \<^verbatim>\<open>total = 3\<close>, \<^verbatim>\<open>percentage = 67\<close> and
  \<^verbatim>\<open>result = "Failed"\<close>.
\<close>

theorem submit_stores_rounded_percentage_witness:
  "\<exists>document.
      round2 (snd (submit sampleRuntime (codingStarted ''print(input())'' 9000 [])
                     (codingStarted ''print(input())'' 9000 [], sampleWorld))) (''u1'', ''q1'')
        = Some document
    \<and> length (perTestResults (fst (submit sampleRuntime (codingStarted ''print(input())'' 9000 [])
                     (codingStarted ''print(input())'' 9000 [], sampleWorld)))) = 3
    \<and> passedCnt document = 2 \<and> total document = 3 \<and> \<not> exactHalf 2 3
    \<and> percentage document = 67
    \<and> sResult document = FailedText"
proof -
  let ?s = "codingStarted ''print(input())'' 9000 []"
  have h1: "currentQuestion ?s = Some questionOne" by (rule sample_current)
  have h2: "uid ?s = Some ''u1''" by (simp add: sample_fields)
  have h3: "qId questionOne \<notin> submittedQuestions ?s" by (simp add: sample_fields)
  have h4: "submitLoop sampleRuntime (code ?s) (langId ?s) (casesOf questionOne) ([], 0, Passed)
              (interp sampleWorld)
            = (Inr ([verdictOf (sampleCase 1 ''1'' ''1'') \<lparr>stdout = ''1'', stderr = [], status = OK\<rparr>,
                     verdictOf (sampleCase 2 ''2'' ''3'') \<lparr>stdout = ''2'', stderr = [], status = OK\<rparr>,
                     verdictOf (sampleCase 3 ''4'' ''4'') \<lparr>stdout = ''4'', stderr = [], status = OK\<rparr>],
                    2, FailedText), 3)"
    by (simp add: sample_loop sampleWorld_def sample_code sample_fields)
  have h5: "storeAccepts sampleWorld" by (simp add: sampleWorld_def)
  have nh: "\<not> exactHalf 2 3" by (simp add: exactHalf_def)
  have r: "round (real 2 / real 3 * 100) = (67::int)" by (simp add: round_def)
  let ?vs = "[verdictOf (sampleCase 1 ''1'' ''1'') \<lparr>stdout = ''1'', stderr = [], status = OK\<rparr>,
              verdictOf (sampleCase 2 ''2'' ''3'') \<lparr>stdout = ''2'', stderr = [], status = OK\<rparr>,
              verdictOf (sampleCase 3 ''4'' ''4'') \<lparr>stdout = ''4'', stderr = [], status = OK\<rparr>]"
  from submit_stores_rounded_percentage [OF h1 h2 h3 h4 h5, of ?s]
  obtain document where d:
    "round2 (snd (submit sampleRuntime ?s (?s, sampleWorld))) (''u1'', qId questionOne) = Some document"
    "perTestResults (fst (submit sampleRuntime ?s (?s, sampleWorld))) = ?vs"
    "total document = length ?vs"
    "passedCnt document = length (filter passed ?vs)"
    "0 < total document \<and> total document < 2 ^ 32
          \<and> \<not> exactHalf (passedCnt document) (total document) \<longrightarrow>
           percentage document
             = round (real (passedCnt document) / real (total document) * 100)"
    "sResult document = (if list_all passed ?vs then Passed else FailedText)"
    by blast
  have t: "total document = 3" using d(3) by simp
  have p: "passedCnt document = 2"
    using d(4) sample_verdicts_passed by simp
  have "percentage document = round (real 2 / real 3 * 100)"
    using d(5) nh unfolding t p by simp
  then have pc: "percentage document = 67" by (simp only: r)
  have res: "sResult document = FailedText"
    using d(6) sample_verdicts_passed by simp
  have q: "round2 (snd (submit sampleRuntime ?s (?s, sampleWorld))) (''u1'', ''q1'') = Some document"
    using d(1) by (simp add: questionOne_def)
  have n: "length (perTestResults (fst (submit sampleRuntime ?s (?s, sampleWorld)))) = 3"
    by (simp add: d(2))
  from q n p t nh pc res show ?thesis by blast
qed

text \<open>
  Claim C3 as stated fails where the exact value is halfway between two integers. With
  40 test cases of which 23 pass, \<open>23 / 40 * 100\<close> is \<open>57.5\<close>, which rounds to 58;
  the quotient of the two doubles is a little below \<open>0.575\<close>, its product with 100 is
  \<open>57.49999999999999\<close>, and the stored percentage is 57.
\<close>

theorem percentage_of_23_in_40_counterexample:
  "map_option passedCnt
      (round2 (snd (submit sampleRuntime fortyStarted (fortyStarted, sampleWorld))) (''u1'', ''q40''))
     = Some 23
   \<and> map_option total
      (round2 (snd (submit sampleRuntime fortyStarted (fortyStarted, sampleWorld))) (''u1'', ''q40''))
     = Some 40
   \<and> map_option percentage
      (round2 (snd (submit sampleRuntime fortyStarted (fortyStarted, sampleWorld))) (''u1'', ''q40''))
     = Some 57
   \<and> round (real 23 / real 40 * 100) = (58::int)"
proof -
  have "map_option passedCnt
      (round2 (snd (submit sampleRuntime fortyStarted (fortyStarted, sampleWorld))) (''u1'', ''q40''))
     = Some 23"
    by code_simp
  moreover have "map_option total
      (round2 (snd (submit sampleRuntime fortyStarted (fortyStarted, sampleWorld))) (''u1'', ''q40''))
     = Some 40"
    by code_simp
  moreover have "map_option percentage
      (round2 (snd (submit sampleRuntime fortyStarted (fortyStarted, sampleWorld))) (''u1'', ''q40''))
     = Some 57"
    by code_simp
  moreover have "round (real 23 / real 40 * 100) = (58::int)"
    by (simp add: round_def)
  ultimately show ?thesis by blast
qed


text \<open>
  Claim C7. \<^verbatim>\<open>submit\<close> for a question that is already in \<^verbatim>\<open>submittedQuestions\<close>
  returns at its guard: the state, the interpreter (no test is run), the stored documents
  and the list of \<^verbatim>\<open>setDoc\<close> calls are all as before.
\<close>

theorem submit_again_is_noop:
  assumes "currentQuestion c = Some q" and "qId q \<in> submittedQuestions c"
  shows "submit rt c (st, wd) = (st, wd)"
  using assms by (simp add: submit_def split: option.splits)

lemma submit_keeps_question:
  "currentQuestion (fst (submit rt c (st, wd))) = currentQuestion st"
  by (simp add: submit_def currentQuestion_def Let_def split: option.splits prod.splits sum.splits)

text \<open>
  In the sample session the first \<^verbatim>\<open>submit\<close> runs the three tests, writes once and
  marks the question; the second changes nothing.
\<close>

theorem submit_again_is_noop_witness:
  "(let first = submit sampleRuntime (codingStarted ''print(input())'' 9000 [])
                  (codingStarted ''print(input())'' 9000 [], sampleWorld)
    in ''q1'' \<in> submittedQuestions (fst first)
       \<and> length (setDocCalls (snd first)) = 1
       \<and> interp (snd first) = 3
       \<and> submit sampleRuntime (fst first) first = first)"
proof -
  let ?s = "codingStarted ''print(input())'' 9000 []"
  let ?first = "submit sampleRuntime ?s (?s, sampleWorld)"
  have h1: "currentQuestion ?s = Some questionOne" by (rule sample_current)
  have h2: "uid ?s = Some ''u1''" by (simp add: sample_fields)
  have h3: "qId questionOne \<notin> submittedQuestions ?s" by (simp add: sample_fields)
  have h4: "submitLoop sampleRuntime (code ?s) (langId ?s) (casesOf questionOne) ([], 0, Passed)
              (interp sampleWorld)
            = (Inr ([verdictOf (sampleCase 1 ''1'' ''1'') \<lparr>stdout = ''1'', stderr = [], status = OK\<rparr>,
                     verdictOf (sampleCase 2 ''2'' ''3'') \<lparr>stdout = ''2'', stderr = [], status = OK\<rparr>,
                     verdictOf (sampleCase 3 ''4'' ''4'') \<lparr>stdout = ''4'', stderr = [], status = OK\<rparr>],
                    2, FailedText), 3)"
    by (simp add: sample_loop sampleWorld_def sample_code sample_fields)
  have h5: "storeAccepts sampleWorld" by (simp add: sampleWorld_def)
  note first = submit_document [OF h1 h2 h3 h4 h5, of ?s]
  have q: "currentQuestion (fst ?first) = Some questionOne"
    by (simp add: submit_keeps_question sample_current)
  have m: "qId questionOne \<in> submittedQuestions (fst ?first)"
    by (simp add: first)
  have "submit sampleRuntime (fst ?first) (fst ?first, snd ?first) = (fst ?first, snd ?first)"
    by (rule submit_again_is_noop [OF q m])
  moreover have "''q1'' \<in> submittedQuestions (fst ?first)"
    using m by (simp add: questionOne_def)
  moreover have "length (setDocCalls (snd ?first)) = 1" "interp (snd ?first) = 3"
    by (simp_all add: first) (simp_all add: sampleWorld_def)
  ultimately show ?thesis by (simp add: Let_def)
qed

section \<open>Submitting the MCQ set\<close>





section \<open>The countdown at expiry\<close>

lemma syncCountdown_keeps:
  "cur (syncCountdown pg) = cur pg" "world (syncCountdown pg) = world pg"
  "warnShown (syncCountdown pg) = warnShown pg"
  by (simp_all add: syncCountdown_def)

text \<open>What \<^verbatim>\<open>submit\<close> never touches, whatever its outcome.\<close>

lemma submit_frame:
  "remainingSec (fst (submit rt c (st, wd))) = remainingSec st"
  "roundCompleted (fst (submit rt c (st, wd))) = roundCompleted st"
  "questions (fst (submit rt c (st, wd))) = questions st"
  "idx (fst (submit rt c (st, wd))) = idx st"
  "violations (fst (submit rt c (st, wd))) = violations st"
  by (simp_all add: submit_def Let_def split: option.splits prod.splits sum.splits)

lemma submit_other_questions:
  assumes "\<forall>q. currentQuestion c = Some q \<longrightarrow> qId q \<noteq> qid"
  shows "round2 (snd (submit rt c (st, wd))) (u, qid) = round2 wd (u, qid)"
    and "(qid \<in> submittedQuestions (fst (submit rt c (st, wd)))) = (qid \<in> submittedQuestions st)"
  using assms
  by (auto simp: submit_def Let_def split: option.splits prod.splits sum.splits)

text \<open>
  Claim C2, as amended. When a firing of the countdown finds one second or less left, it
  sets \<^verbatim>\<open>remainingSec\<close> to 0 and calls \<^verbatim>\<open>submit\<close> for the question displayed in the
  render the effect closed over, and only when that question is not yet in
  \<^verbatim>\<open>submittedQuestions\<close>: the documents and the submitted marks of all other
  questions are as before; when the displayed question is already submitted nothing is
  run or written; otherwise, when the candidate is signed in, every run returns and the
  store accepts the write, the displayed question is stored and marked submitted, and the
  stored code is the current code buffer when the buffer is still the one of that render.
\<close>

theorem expiry_submits_current_question_only:
  assumes on: "intervalOn pg" and s: "remainingSec (cur pg) = Some s" and exp: "s \<le> 1"
  shows "remainingSec (cur (tick rt pg)) = Some 0
    \<and> (\<forall>qid u. (\<forall>q. currentQuestion (effRender pg) = Some q \<longrightarrow> qId q \<noteq> qid) \<longrightarrow>
          round2 (world (tick rt pg)) (u, qid) = round2 (world pg) (u, qid)
          \<and> (qid \<in> submittedQuestions (cur (tick rt pg))) = (qid \<in> submittedQuestions (cur pg)))
    \<and> (\<forall>q. currentQuestion (effRender pg) = Some q \<and> qId q \<in> submittedQuestions (effRender pg) \<longrightarrow>
          world (tick rt pg) = world pg
          \<and> submittedQuestions (cur (tick rt pg)) = submittedQuestions (cur pg))
    \<and> (\<forall>q u collected passedCount resultText w'.
          currentQuestion (effRender pg) = Some q \<and> qId q \<notin> submittedQuestions (effRender pg)
          \<and> uid (effRender pg) = Some u \<and> storeAccepts (world pg)
          \<and> submitLoop rt (code (effRender pg)) (langId (effRender pg)) (casesOf q) ([], 0, Passed)
                (interp (world pg)) = (Inr (collected, passedCount, resultText), w')
          \<longrightarrow> (\<exists>document. round2 (world (tick rt pg)) (u, qId q) = Some document
                   \<and> (code (effRender pg) = code (cur pg) \<longrightarrow> sCode document = code (cur pg)))
              \<and> qId q \<in> submittedQuestions (cur (tick rt pg)))"
proof -
  let ?c = "effRender pg"
  let ?r = "case currentQuestion ?c of None \<Rightarrow> (cur pg, world pg)
            | Some q \<Rightarrow> if qId q \<notin> submittedQuestions ?c then submit rt ?c (cur pg, world pg)
                        else (cur pg, world pg)"
  have t: "cur (tick rt pg) = (fst ?r)\<lparr>remainingSec := Some 0\<rparr>" "world (tick rt pg) = snd ?r"
    using on s exp by (simp_all add: tick_def Let_def syncCountdown_keeps split: prod.splits)
  have 1: "remainingSec (cur (tick rt pg)) = Some 0"
    by (simp add: t)
  have 2: "round2 (world (tick rt pg)) (u, qid) = round2 (world pg) (u, qid)
          \<and> (qid \<in> submittedQuestions (cur (tick rt pg))) = (qid \<in> submittedQuestions (cur pg))"
    if "\<forall>q. currentQuestion ?c = Some q \<longrightarrow> qId q \<noteq> qid" for qid u
    using that submit_other_questions [OF that, of rt "cur pg" "world pg"]
    by (auto simp: t split: option.splits)
  have 3: "world (tick rt pg) = world pg \<and> submittedQuestions (cur (tick rt pg)) = submittedQuestions (cur pg)"
    if "currentQuestion ?c = Some q" "qId q \<in> submittedQuestions ?c" for q
    using that by (simp add: t)
  have 4: "(\<exists>document. round2 (world (tick rt pg)) (u, qId q) = Some document
                   \<and> (code ?c = code (cur pg) \<longrightarrow> sCode document = code (cur pg)))
              \<and> qId q \<in> submittedQuestions (cur (tick rt pg))"
    if "currentQuestion ?c = Some q" "qId q \<notin> submittedQuestions ?c" "uid ?c = Some u"
       "storeAccepts (world pg)"
       "submitLoop rt (code ?c) (langId ?c) (casesOf q) ([], 0, Passed) (interp (world pg))
          = (Inr (collected, passedCount, resultText), w')"
    for q u collected passedCount resultText w'
    using that(1,2) by (simp add: t submit_document [OF that(1) that(3) that(2) that(5) that(4)])
  from 1 2 3 4 show ?thesis by blast
qed

text \<open>The sample page at server time 9000 ms: one second before the first question ends.\<close>

lemma sample_world:
  "interp sampleWorld = 0" "storeAccepts sampleWorld" "round2 sampleWorld = Map.empty"
  "setDocCalls sampleWorld = []"
  by (simp_all add: sampleWorld_def)

lemma sample_page:
  "intervalOn (codingPage (codingStarted src 9000 []) sampleWorld)"
  "effRender (codingPage (codingStarted src 9000 []) sampleWorld) = codingStarted src 9000 []"
  "cur (codingPage (codingStarted src 9000 []) sampleWorld) = codingStarted src 9000 []"
  "world (codingPage (codingStarted src 9000 []) sampleWorld) = sampleWorld"
  "remainingSec (codingStarted src 9000 []) = Some 1"
  by (simp_all add: codingPage_def syncCountdown_def countdownDeps_def codingStarted_def
      loadQuestions_def codingInitial_def baseRemaining_def ends_def List.map_filter_def
      questionOne_def questionTwo_def Let_def)

text \<open>
  On the sample page, with both questions open and the first displayed, the firing at
  expiry stores the first question with its buffer and leaves the second unsubmitted.
\<close>

theorem expiry_submits_current_question_only_witness:
  "(let pg = tick sampleRuntime (codingPage (codingStarted ''print(input())'' 9000 []) sampleWorld)
    in remainingSec (cur pg) = Some 0
       \<and> (\<exists>document. round2 (world pg) (''u1'', ''q1'') = Some document
              \<and> sCode document = ''print(input())'')
       \<and> ''q1'' \<in> submittedQuestions (cur pg)
       \<and> round2 (world pg) (''u1'', ''q2'') = None
       \<and> ''q2'' \<notin> submittedQuestions (cur pg))"
proof -
  let ?s = "codingStarted ''print(input())'' 9000 []"
  let ?pg = "codingPage ?s sampleWorld"
  have h1: "intervalOn ?pg" by (rule sample_page)
  have h2: "remainingSec (cur ?pg) = Some 1" by (simp add: sample_page)
  have h3: "(1::int) \<le> 1" by simp
  note main = expiry_submits_current_question_only [OF h1 h2 h3, of sampleRuntime]
  from main have a: "remainingSec (cur (tick sampleRuntime ?pg)) = Some 0" by blast
  have other: "\<forall>q. currentQuestion (effRender ?pg) = Some q \<longrightarrow> qId q \<noteq> ''q2''"
    by (simp add: sample_page sample_current questionOne_def)
  from main other have b:
    "round2 (world (tick sampleRuntime ?pg)) (''u1'', ''q2'') = round2 (world ?pg) (''u1'', ''q2'')
     \<and> (''q2'' \<in> submittedQuestions (cur (tick sampleRuntime ?pg))) = (''q2'' \<in> submittedQuestions (cur ?pg))"
    by blast
  have loop: "submitLoop sampleRuntime (code (effRender ?pg)) (langId (effRender ?pg))
                (casesOf questionOne) ([], 0, Passed) (interp (world ?pg))
              = (Inr ([verdictOf (sampleCase 1 ''1'' ''1'') \<lparr>stdout = ''1'', stderr = [], status = OK\<rparr>,
                       verdictOf (sampleCase 2 ''2'' ''3'') \<lparr>stdout = ''2'', stderr = [], status = OK\<rparr>,
                       verdictOf (sampleCase 3 ''4'' ''4'') \<lparr>stdout = ''4'', stderr = [], status = OK\<rparr>],
                      2, FailedText), 3)"
    by (simp add: sample_page sample_loop sample_code sample_fields sample_world)
  have pre: "currentQuestion (effRender ?pg) = Some questionOne"
    "qId questionOne \<notin> submittedQuestions (effRender ?pg)"
    "uid (effRender ?pg) = Some ''u1''" "storeAccepts (world ?pg)"
    by (simp_all add: sample_page sample_current sample_fields sample_world)
  have same: "code (effRender ?pg) = code (cur ?pg)"
    by (simp add: sample_page)
  from main pre loop same have c:
    "(\<exists>document. round2 (world (tick sampleRuntime ?pg)) (''u1'', qId questionOne) = Some document
         \<and> sCode document = code (cur ?pg))
     \<and> qId questionOne \<in> submittedQuestions (cur (tick sampleRuntime ?pg))"
    by blast
  from a b c show ?thesis
    by (simp add: Let_def sample_page sample_code sample_fields sample_world questionOne_def)
qed

text \<open>
  Claim C2 as stated fails. With the first question submitted earlier and displayed at
  expiry, the one unsubmitted question is not submitted: nothing is run or written.
  With both questions open, only the displayed one is submitted. In both cases
  \<^verbatim>\<open>roundCompleted\<close> stays false.
\<close>

theorem expiry_leaves_other_question_counterexample:
  "(let pg = tick sampleRuntime (codingPage (codingStarted ''print(input())'' 9000 [''q1'']) sampleWorld)
    in remainingSec (cur pg) = Some 0
       \<and> ''q2'' \<notin> submittedQuestions (cur pg)
       \<and> round2 (world pg) (''u1'', ''q2'') = None
       \<and> setDocCalls (world pg) = []
       \<and> \<not> roundCompleted (cur pg))
   \<and> (let pg = tick sampleRuntime (codingPage (codingStarted ''print(input())'' 9000 []) sampleWorld)
      in remainingSec (cur pg) = Some 0
         \<and> ''q2'' \<notin> submittedQuestions (cur pg)
         \<and> round2 (world pg) (''u1'', ''q2'') = None
         \<and> length (setDocCalls (world pg)) = 1
         \<and> \<not> roundCompleted (cur pg))"
  by code_simp

section \<open>The countdown: start value, sign and expiry\<close>

text \<open>
  The start value is the whole number of seconds from the server's time to the earliest
  end time among the loaded questions, and 0 when that time has passed; there is no
  countdown when no question has an end time.
\<close>

lemma baseRemaining_earliest:
  "baseRemaining list now =
     (if ends list = [] then None
      else Some (max 0 ((Min (set (ends list)) - now) div 1000)))"
proof (cases "ends list")
  case Nil
  then show ?thesis by (simp add: baseRemaining_def)
next
  case (Cons e es)
  have "Min (set (e # es)) = fold min es e" by (rule Min.set_eq_fold)
  with Cons show ?thesis by (simp add: baseRemaining_def)
qed

text \<open>No event makes the countdown negative.\<close>

lemma handleRun_frame:
  "remainingSec (fst (handleRun rt (st, wd))) = remainingSec st"
  by (simp add: handleRun_def Let_def split: option.splits prod.splits sum.splits)

lemma tick_notNegative: "notNegative pg \<Longrightarrow> notNegative (tick rt pg)"
  by (auto simp: notNegative_def tick_def Let_def syncCountdown_keeps
      split: option.splits prod.splits)

lemma codingStep_notNegative: "notNegative pg \<Longrightarrow> notNegative (codingStep rt ev pg)"
proof (cases ev)
  case Tick
  assume "notNegative pg"
  with Tick show ?thesis by (simp add: codingStep_def tick_notNegative)
next
  case ClickSubmit
  assume "notNegative pg"
  with ClickSubmit show ?thesis
    using submit_frame(1) [of rt "cur pg" "cur pg" "world pg"]
    by (auto simp: codingStep_def notNegative_def syncCountdown_keeps split: prod.splits)
next
  case ClickRun
  assume "notNegative pg"
  with ClickRun show ?thesis
    using handleRun_frame [of rt "cur pg" "world pg"]
    by (auto simp: codingStep_def notNegative_def syncCountdown_keeps split: prod.splits)
qed (auto simp: codingStep_def notNegative_def setCode_def onVisibility_def onBlur_def
      onFsChange_def bumpViolation_def syncCountdown_keeps)

lemma codingRun_notNegative: "notNegative pg \<Longrightarrow> notNegative (codingRun rt evs pg)"
  unfolding codingRun_def by (induction evs arbitrary: pg) (simp_all add: codingStep_notNegative)

lemma load_notNegative:
  "notNegative (codingPage (loadQuestions list now initialCode submittedIds st) wd)"
  by (auto simp: notNegative_def codingPage_def loadQuestions_def baseRemaining_earliest Let_def
      syncCountdown_keeps)

text \<open>
  The firing that takes the countdown from 1 to 0 clears its interval, but
  \<^verbatim>\<open>remainingSec\<close> is a dependency of the effect: the change to 0 runs the effect again,
  which sets a new interval.
\<close>

lemma interval_set_again_at_zero:
  assumes "intervalOn pg" and "remainingSec (cur pg) = Some 1"
    and "countdownDeps (effRender pg) = countdownDeps (cur pg)"
    and "\<not> roundCompleted (cur pg)"
  shows "intervalOn (tick rt pg) \<and> remainingSec (cur (tick rt pg)) = Some 0"
  using assms submit_frame(1,2) [of rt "effRender pg" "cur pg" "world pg"]
  by (auto simp: tick_def Let_def syncCountdown_def countdownDeps_def split: option.splits prod.splits)

text \<open>
  Claim C6. The start value and the sign are as claimed (\<open>baseRemaining_earliest\<close>,
  \<open>codingRun_notNegative\<close>), but the countdown does not stop at 0 and the forced
  submission is not triggered once only. On the sample page with one second left and a
  store that refuses the write: the first firing sets the countdown to 0, runs the three
  tests and calls \<^verbatim>\<open>setDoc\<close>; the effect sets its interval again; the second firing,
  at 0, runs the three tests and calls \<^verbatim>\<open>setDoc\<close> a second time. And with a store
  that accepts the write: the first firing stores the first question; when the candidate
  then moves to the second question the effect sets its interval once more, and its next
  firing stores the second question.
\<close>

theorem expiry_submits_twice:
  "(let pg0 = codingPage (codingStarted ''print(input())'' 9000 [])
                (sampleWorld\<lparr>storeAccepts := False\<rparr>);
        pg1 = tick sampleRuntime pg0;
        pg2 = tick sampleRuntime pg1
    in remainingSec (cur pg0) = Some 1 \<and> intervalOn pg0
       \<and> remainingSec (cur pg1) = Some 0 \<and> intervalOn pg1
       \<and> length (setDocCalls (world pg1)) = 1 \<and> interp (world pg1) = 3
       \<and> remainingSec (cur pg2) = Some 0 \<and> \<not> intervalOn pg2
       \<and> length (setDocCalls (world pg2)) = 2 \<and> interp (world pg2) = 6)
   \<and> (let pg0 = codingPage (codingStarted ''print(input())'' 9000 []) sampleWorld;
          pg1 = codingStep sampleRuntime Tick pg0;
          pg2 = codingStep sampleRuntime Next pg1;
          pg3 = codingStep sampleRuntime Tick pg2
      in remainingSec (cur pg1) = Some 0 \<and> intervalOn pg1
         \<and> submittedQuestions (cur pg1) = {''q1''}
         \<and> intervalOn pg2
         \<and> remainingSec (cur pg3) = Some 0
         \<and> submittedQuestions (cur pg3) = {''q1'', ''q2''}
         \<and> length (setDocCalls (world pg3)) = 2)"
  by code_simp

section \<open>Errors of candidate code\<close>

text \<open>
  A thrown value that converts to a string is reported: status \<^verbatim>\<open>Runtime Error\<close>, the
  message after \<^verbatim>\<open>Runtime Error: \<close> in \<^verbatim>\<open>stderr\<close>. \<^verbatim>\<open>runLocal\<close> rejects exactly
  when the handler cannot convert what was thrown: a symbol, or a value whose truthy
  message, or which itself when it has none, raises on conversion.
\<close>

lemma runLocal_reports_thrown_error:
  assumes "jsExec rt w source (splitNl inStdin) = (JsThrew e, w')" and "messageOrSelf e = Inr m"
  shows "runLocal rt w source JavaScript inStdin
           = (Inr \<lparr>stdout = [], stderr = ''Runtime Error: '' @ m, status = RuntimeError\<rparr>, w')"
  using assms by (simp add: runLocal_def caught_def)

lemma runLocal_reports_python_error:
  assumes "pyodideLoaded rt w" and "pyExec rt w source inStdin = (PyThrew e, w')"
    and "messageOrSelf e = Inr m"
  shows "runLocal rt w source Python inStdin
           = (Inr \<lparr>stdout = [], stderr = ''Runtime Error: '' @ m, status = RuntimeError\<rparr>, w')"
  using assms by (simp add: runLocal_def caught_def)

text \<open>While Pyodide is not loaded, a Python run reports it and runs nothing.\<close>

lemma runLocal_python_not_ready:
  "\<not> pyodideLoaded rt w \<Longrightarrow>
   runLocal rt w source Python inStdin
     = (Inr \<lparr>stdout = [], stderr = ''Python runtime not ready'', status = Failed\<rparr>, w)"
  by (simp add: runLocal_def)

lemma messageOrSelf_raises:
  "messageOrSelf e = Inl fault \<longleftrightarrow>
     (\<exists>d. e = ThrownSymbol d \<and> fault = TypeError ''Cannot convert a Symbol value to a string'')
     \<or> (\<exists>self. e = ThrownValue (Message (Raises fault)) self)
     \<or> e = ThrownValue NoMessage (Raises fault)"
  by (cases e rule: messageOrSelf.cases) auto

lemma runLocal_rejects_iff:
  "fst (runLocal rt w source lang inStdin) = Inl fault \<longleftrightarrow>
     (\<exists>e w'. messageOrSelf e = Inl fault
        \<and> (lang = JavaScript \<and> jsExec rt w source (splitNl inStdin) = (JsThrew e, w')
           \<or> lang = Python \<and> pyodideLoaded rt w
               \<and> pyExec rt w source inStdin = (PyThrew e, w')))"
  by (auto simp: runLocal_def caught_def split: language.splits prod.splits js_outcome.splits
      py_outcome.splits if_splits sum.splits)

text \<open>
  Claim C9. A candidate program that throws a value with no conversion to a string
  (\<^verbatim>\<open>throw Symbol()\<close>) makes the template literal of the \<^verbatim>\<open>catch\<close> block raise a
  \<^verbatim>\<open>TypeError\<close>: \<^verbatim>\<open>runLocal\<close> does not return a result with status
  \<^verbatim>\<open>Runtime Error\<close>, its promise is rejected with that fault.
\<close>

theorem runLocal_rejects_on_thrown_symbol:
  assumes "jsExec rt w source (splitNl inStdin) = (JsThrew (ThrownSymbol d), w')"
  shows "runLocal rt w source JavaScript inStdin
           = (Inl (TypeError ''Cannot convert a Symbol value to a string''), w')"
  using assms by (simp add: runLocal_def caught_def)

theorem runLocal_rejects_on_thrown_symbol_witness:
  "jsExec sampleRuntime 0 ''throw Symbol()'' (splitNl ''1'') = (JsThrew (ThrownSymbol []), 1)
   \<and> runLocal sampleRuntime 0 ''throw Symbol()'' JavaScript ''1''
       = (Inl (TypeError ''Cannot convert a Symbol value to a string''), 1)"
proof -
  have h: "jsExec sampleRuntime 0 ''throw Symbol()'' (splitNl ''1'') = (JsThrew (ThrownSymbol []), Suc 0)"
    by (simp add: sampleRuntime_def sampleJs_def)
  from runLocal_rejects_on_thrown_symbol [OF h] h show ?thesis by simp
qed

section \<open>Running the test cases\<close>

text \<open>
  When every run returns, \<^verbatim>\<open>handleRun\<close> shows one verdict per test case, in the order
  of the cases, and a run whose status is not \<^verbatim>\<open>OK\<close> fails its own case only.
\<close>

lemma handleRun_verdicts:
  assumes "currentQuestion st = Some q"
    and "runLoop rt (code st) (langId st) (casesOf q) [] (interp wd) = (Inr collected, w')"
  shows "perTestResults (fst (handleRun rt (st, wd))) = collected
     \<and> list_all2 (verdictFor rt (code st) (langId st)) (casesOf q) collected
     \<and> statusText (fst (handleRun rt (st, wd))) = (if list_all passed collected then ''OK'' else ''Failed'')"
  using assms runLoop_result [OF assms(2)] by (simp add: handleRun_def Let_def)

lemma failed_run_fails_its_case: "status r \<noteq> OK \<Longrightarrow> \<not> passed (verdictOf tc r)"
  by (simp add: verdictOf_def Let_def)

text \<open>
  Claim C5. When the run of a test case is rejected (the defect of claim C9),
  \<^verbatim>\<open>handleRun\<close> is left at that case: no verdict is shown for any case, the cases after
  it are not run, and \<^verbatim>\<open>runningNow\<close> stays set.
\<close>

theorem handleRun_stops_at_rejected_run:
  assumes "currentQuestion st = Some q" and "casesOf q = tc # tcs"
    and "runLocal rt (interp wd) (code st) (langId st) (orEmpty (tcInput tc)) = (Inl fault, w')"
  shows "handleRun rt (st, wd)
           = (st\<lparr>runningNow := True, statusText := [], perTestResults := []\<rparr>, wd\<lparr>interp := w'\<rparr>)"
  using assms by (simp add: handleRun_def Let_def)

theorem handleRun_stops_at_rejected_run_witness:
  "(let r = handleRun sampleRuntime (codingStarted ''throw Symbol()'' 9000 [], sampleWorld)
    in length (casesOf questionOne) = 3 \<and> perTestResults (fst r) = [] \<and> runningNow (fst r)
       \<and> statusText (fst r) = [] \<and> interp (snd r) = 1)"
proof -
  let ?s = "codingStarted ''throw Symbol()'' 9000 []"
  have h1: "currentQuestion ?s = Some questionOne" by (rule sample_current)
  have h2: "casesOf questionOne = sampleCase 1 ''1'' ''1'' # [sampleCase 2 ''2'' ''3'', sampleCase 3 ''4'' ''4'']"
    by (simp add: casesOf_def questionOne_def)
  have h3: "runLocal sampleRuntime (interp sampleWorld) (code ?s) (langId ?s)
              (orEmpty (tcInput (sampleCase 1 ''1'' ''1'')))
            = (Inl (TypeError ''Cannot convert a Symbol value to a string''), 1)"
    by (simp add: runLocal_def caught_def sampleRuntime_def sampleJs_def sample_code sample_fields
        sampleWorld_def)
  from handleRun_stops_at_rejected_run [OF h1 h2 h3] h2 show ?thesis
    by (simp add: Let_def)
qed

section \<open>Violations in the MCQ round\<close>

lemma first_violation:
  assumes "mStarted (mEff pg)" and "\<not> submitted (mEff pg)" and "\<not> warningGiven (mEff pg)"
    and "mcqDeps (mCur pg) = mcqDeps (mEff pg)"
  shows "mViolations (mCur (mcqStep (TabVisibility True) pg)) = mViolations (mCur pg) + 1"
    and "mEff (mcqStep (TabVisibility True) pg) = mCur (mcqStep (TabVisibility True) pg)"
    and "warningGiven (mCur (mcqStep (TabVisibility True) pg))"
    and "\<not> submitted (mCur (mcqStep (TabVisibility True) pg))"
    and "mStarted (mCur (mcqStep (TabVisibility True) pg))"
    and "mWarningMsg (mCur (mcqStep (TabVisibility True) pg)) = Some firstWarning"
    and "user (mCur (mcqStep (TabVisibility True) pg)) = user (mCur pg)"
    and "responses (mWorld (mcqStep (TabVisibility True) pg)) = responses (mWorld pg)"
    and "mStoreAccepts (mWorld (mcqStep (TabVisibility True) pg)) = mStoreAccepts (mWorld pg)"
    and "route (mWorld (mcqStep (TabVisibility True) pg)) = route (mWorld pg)"
    and "fullscreenElement (mWorld pg) \<or> fullscreenRequests (mWorld (mcqStep (TabVisibility True) pg)) = fullscreenRequests (mWorld pg) + 1"
  using assms
  by (auto simp: mcqStep_def listening_def withHandler_def handleVisibility_def handleViolation_def
      reEnterFullscreen_def mcqSync_def mcqDeps_def Let_def split: prod.splits)

lemma second_violation:
  assumes "mStarted (mEff pg)" and "\<not> submitted (mEff pg)" and "warningGiven (mEff pg)"
    and "user (mEff pg) = Some u" and "mStoreAccepts (mWorld pg)"
  shows "mViolations (mCur (mcqStep (TabVisibility True) pg)) = mViolations (mCur pg) + 1"
    and "submitted (mCur (mcqStep (TabVisibility True) pg))"
    and "responses (mWorld (mcqStep (TabVisibility True) pg)) u
          = Some ((docOf (mWorld pg) u)\<lparr>round1Submitted := Some True, round1Rejected := Some True,
                                      docViolations := Some (mViolations (mEff pg))\<rparr>)"
    and "route (mWorld (mcqStep (TabVisibility True) pg)) = ''/rejected''"
  using assms
  by (auto simp: mcqStep_def listening_def withHandler_def handleVisibility_def handleViolation_def
      handleReject_def exitFullscreen_def mcqSync_def mcqDeps_def Let_def split: prod.splits)

text \<open>
  Claim C1. In a started MCQ session with no warning given yet, the first violation
  raises the count by one, shows the warning and leaves the session running; the second
  raises the count again, marks the session submitted, writes the rejection and navigates
  to \<^verbatim>\<open>/rejected\<close>. But \<^verbatim>\<open>handleReject\<close> writes the \<^verbatim>\<open>violations\<close> of the render
  that attached the listeners, the one after the first violation: the document holds the
  count before the second violation, one less than the count of the session.
\<close>

theorem rejection_record_misses_second_violation:
  assumes "mStarted (mEff pg)" and "\<not> submitted (mEff pg)" and "\<not> warningGiven (mEff pg)"
    and "mcqDeps (mCur pg) = mcqDeps (mEff pg)"
    and "user (mCur pg) = Some u" and "mStoreAccepts (mWorld pg)"
  shows "(let pg1 = mcqStep (TabVisibility True) pg;
              pg2 = mcqStep (TabVisibility True) pg1
          in mViolations (mCur pg1) = mViolations (mCur pg) + 1
             \<and> \<not> submitted (mCur pg1)
             \<and> mWarningMsg (mCur pg1) = Some firstWarning
             \<and> mViolations (mCur pg2) = mViolations (mCur pg) + 2
             \<and> submitted (mCur pg2)
             \<and> route (mWorld pg2) = ''/rejected''
             \<and> round1Rejected (docOf (mWorld pg2) u) = Some True
             \<and> docViolations (docOf (mWorld pg2) u) = Some (mViolations (mCur pg) + 1))"
proof -
  let ?pg1 = "mcqStep (TabVisibility True) pg"
  note one = first_violation [OF assms(1-4)]
  have e: "mStarted (mEff ?pg1)" "\<not> submitted (mEff ?pg1)" "warningGiven (mEff ?pg1)"
    "user (mEff ?pg1) = Some u" "mStoreAccepts (mWorld ?pg1)"
    using one assms(5,6) by simp_all
  note two = second_violation [OF e]
  have "mViolations (mEff ?pg1) = mViolations (mCur pg) + 1"
    using one by simp
  with one two show ?thesis
    by (simp add: Let_def docOf_def)
qed

theorem rejection_record_misses_second_violation_witness:
  "(let pg0 = mcqStep ClickStartExam mcqPage;
        pg1 = mcqStep (TabVisibility True) pg0;
        pg2 = mcqStep (TabVisibility True) pg1
    in mViolations (mCur pg0) = 0
       \<and> mViolations (mCur pg1) = 1 \<and> \<not> submitted (mCur pg1)
       \<and> mWarningMsg (mCur pg1) = Some firstWarning
       \<and> mViolations (mCur pg2) = 2 \<and> submitted (mCur pg2)
       \<and> route (mWorld pg2) = ''/rejected''
       \<and> round1Rejected (docOf (mWorld pg2) ''u1'') = Some True
       \<and> docViolations (docOf (mWorld pg2) ''u1'') = Some 1)"
proof -
  let ?pg0 = "mcqStep ClickStartExam mcqPage"
  have h: "mStarted (mEff ?pg0)" "\<not> submitted (mEff ?pg0)" "\<not> warningGiven (mEff ?pg0)"
    "mcqDeps (mCur ?pg0) = mcqDeps (mEff ?pg0)" "user (mCur ?pg0) = Some ''u1''"
    "mStoreAccepts (mWorld ?pg0)"
    by code_simp+
  have z: "mViolations (mCur ?pg0) = 0" by code_simp
  from rejection_record_misses_second_violation [OF h] z show ?thesis
    by (simp add: Let_def)
qed

section \<open>Repeated visibility events\<close>

text \<open>
  The layout's monitor ignores a visibility change that comes less than 500 ms after the
  last one it accepted, so two events of one tab switch count once there.
\<close>

lemma layout_debounce:
  assumes "now2 - lastVisibilityChange st < 500"
  shows "onVisibilityChange now2 documentHidden st = st"
  using assms by (simp add: onVisibilityChange_def)

lemma layout_counts_once:
  assumes "500 \<le> now1 - lastVisibilityChange st" and "now2 - now1 < 500"
    and "violationCount st + 1 < 5"
  shows "violationCount (onVisibilityChange now2 True (onVisibilityChange now1 True st))
           = violationCount st + 1"
  using assms by (simp add: onVisibilityChange_def layoutViolation_def Let_def)

text \<open>
  Claim C8. The handlers of the two rounds have no such window: \<^verbatim>\<open>onVisibility\<close> and
  \<^verbatim>\<open>handleVisibility\<close> do not read the time. Two visibility events with the document
  hidden, however close, raise the count of a started coding session by two, and in a
  started MCQ session the second one rejects the exam.
\<close>

theorem repeated_visibility_events_count_twice:
  "(let pg = codingRun sampleRuntime [VisibilityChange True, VisibilityChange True]
               (codingPage (codingStarted ''print(input())'' 9000 []) sampleWorld)
    in violations (cur pg) = 2)
   \<and> (let pg = mcqRun [ClickStartExam, TabVisibility True, TabVisibility True] mcqPage
      in mViolations (mCur pg) = 2 \<and> submitted (mCur pg) \<and> route (mWorld pg) = ''/rejected'')"
  by code_simp

end
